theory Spec2Isabelle
  imports Complex_Main
begin

section \<open>Chaos engineering framework for databases\<close>

text \<open>
  A shallow embedding of \<^verbatim>\<open>src/chaos_framework.py\<close>. The framework object
  (\<^verbatim>\<open>self\<close>) and the environment it talks to (the psycopg2 driver and the
  target behind it, the system clock, the global random generator, the logger and
  standard output) are one explicit state that every method takes and returns.

  What the environment answers is not decided by the program, so it is a parameter of
  the state: \<open>clock\<close> gives the successive readings of the system clock,
  \<open>driver\<close> says for every driver call, in program order, whether it succeeds
  (\<open>None\<close>) or raises (\<open>Some\<close> message), and \<open>rnd\<close> gives the successive
  values of \<^verbatim>\<open>random.random()\<close>. Python floats are modelled by exact reals:
  rounding is not represented. \<^verbatim>\<open>time.sleep\<close> only lets time pass, which the
  clock readings account for, and the log lines with a constant text are left out.
  Exceptions that do not derive from \<^verbatim>\<open>Exception\<close> (an interrupt from the
  keyboard) are not modelled.
\<close>

subsection \<open>Exceptions\<close>

text \<open>
  The exceptions that the modelled code can raise. \<open>DriverError\<close> stands for any
  \<^verbatim>\<open>psycopg2.Error\<close>; all of them derive from \<^verbatim>\<open>Exception\<close>.
  \<open>str\<close> is Python's \<^verbatim>\<open>str(e)\<close>, used by \<^verbatim>\<open>f"Error: {e}"\<close>; for a
  \<^verbatim>\<open>KeyError\<close> it is the key in quotes. The messages of the exceptions that no
  handler of the source formats (\<^verbatim>\<open>AttributeError\<close>, \<^verbatim>\<open>TypeError\<close>) are
  abbreviated.
\<close>

datatype exn =
    DriverError string
  | AttributeError string
  | KeyError string
  | ZeroDivisionError string
  | TypeError string

fun str :: "exn \<Rightarrow> string" where
  "str (DriverError m) = m"
| "str (AttributeError m) = m"
| "str (KeyError k) = [CHR 0x27] @ k @ [CHR 0x27]"
| "str (ZeroDivisionError m) = m"
| "str (TypeError m) = m"

subsection \<open>Data model\<close>

text \<open>
  An observation is a Python string. The source builds most of them with f-strings
  that format numbers; each constructor stands for one template of the source and
  carries the values interpolated into it:
  \<^item> \<open>Note t\<close>: the literal \<open>t\<close>;
  \<^item> \<open>Error m\<close>: \<^verbatim>\<open>f"Error: {e}"\<close> with \<open>m = str e\<close>;
  \<^item> \<open>Created n\<close>: \<^verbatim>\<open>f"Created {len(connections)} connections"\<close>;
  \<^item> \<open>Latency_during l\<close>: \<^verbatim>\<open>f"Query latency during chaos: {latency:.2f}ms"\<close>;
  \<^item> \<open>Baseline_latency b\<close>: \<^verbatim>\<open>f"Baseline latency: {...:.2f}ms"\<close>;
  \<^item> \<open>Degradation d\<close>: \<^verbatim>\<open>f"Performance degradation: {degradation:.1f}%"\<close>;
  \<^item> \<open>Counts sc fc\<close>: \<^verbatim>\<open>f"Success: {success_count}, Failures: {failure_count}"\<close>.
\<close>

datatype observation =
    Note string
  | Error string
  | Created nat
  | Latency_during real
  | Baseline_latency real
  | Degradation real
  | Counts nat nat

text \<open>Class \<^verbatim>\<open>ChaosExperiment\<close>; \<open>None\<close> is Python's \<^verbatim>\<open>None\<close>.\<close>

record ChaosExperiment =
  name :: string
  description :: string
  blast_radius :: string
  start_time :: "real option"
  end_time :: "real option"
  result :: "string option"
  observations :: "observation list"

definition ChaosExperiment_init :: "string \<Rightarrow> string \<Rightarrow> string \<Rightarrow> ChaosExperiment" where
  "ChaosExperiment_init n d b =
     \<lparr>name = n, description = d, blast_radius = b,
      start_time = None, end_time = None, result = None, observations = []\<rparr>"

text \<open>
  What the program does to the outside, in program order: the driver calls (with the
  kind of call or the SQL text), the assignments to the three attributes of an
  experiment that start as \<^verbatim>\<open>None\<close>, the two log lines that carry data, and the
  blocks printed on standard output, each with the values interpolated into it
  (\<open>Print_result\<close> carries the result that is printed in upper case).
\<close>

datatype event =
    Driver_call string
  | Set_start_time real
  | Set_end_time real
  | Set_result string
  | Log_error string
  | Log_recovery real nat
  | Print_banner
  | Print_phase string
  | Print_summary nat nat nat
  | Print_experiment nat string string string real
  | Print_result string "observation list"
  | Print_resilience real string
  | Print_recommendations
  | Print_key_features

text \<open>
  Class \<^verbatim>\<open>ChaosFramework\<close> (\<open>conn\<close>, \<open>experiments\<close>, \<open>baseline_metrics\<close>)
  together with the environment. \<open>conn\<close> holds the handle of the session opened by
  \<open>connect\<close>; \<open>sessions\<close> lists the handles of the sessions currently open on
  the target; \<open>ticks\<close>, \<open>calls\<close> and \<open>draws\<close> count the clock readings, driver
  calls and random draws made so far.
\<close>

record state =
  conn :: "nat option"
  experiments :: "ChaosExperiment list"
  baseline_metrics :: "string \<rightharpoonup> real"
  clock :: "nat \<Rightarrow> real"
  ticks :: nat
  driver :: "nat \<Rightarrow> string option"
  calls :: nat
  rnd :: "nat \<Rightarrow> real"
  draws :: nat
  sessions :: "nat list"
  trace :: "event list"

subsection \<open>The environment\<close>

text \<open>\<^verbatim>\<open>datetime.now()\<close> and \<^verbatim>\<open>time.time()\<close>: the next reading of the clock, in seconds.\<close>

definition now :: "state \<Rightarrow> real \<times> state" where
  "now s = (clock s (ticks s), s\<lparr>ticks := Suc (ticks s)\<rparr>)"

text \<open>\<^verbatim>\<open>random.random()\<close>: the next value of the global generator.\<close>

definition random :: "state \<Rightarrow> real \<times> state" where
  "random s = (rnd s (draws s), s\<lparr>draws := Suc (draws s)\<rparr>)"

definition emit :: "event \<Rightarrow> state \<Rightarrow> state" where
  "emit ev s = s\<lparr>trace := trace s @ [ev]\<rparr>"

text \<open>One call into the driver: it is recorded, and the environment decides its outcome.\<close>

definition driver_call :: "string \<Rightarrow> state \<Rightarrow> exn option \<times> state" where
  "driver_call what s =
     (map_option DriverError (driver s (calls s)),
      emit (Driver_call what) (s\<lparr>calls := Suc (calls s)\<rparr>))"

text \<open>A handle that no open session has.\<close>

definition fresh :: "nat list \<Rightarrow> nat" where
  "fresh hs = Suc (foldr max hs 0)"

text \<open>\<^verbatim>\<open>psycopg2.connect(...)\<close>: on success a new session is open on the target.\<close>

definition psycopg2_connect :: "state \<Rightarrow> (exn + nat) \<times> state" where
  "psycopg2_connect s =
     (case driver_call ''connect'' s of
        (Some e, s1) \<Rightarrow> (Inl e, s1)
      | (None, s1) \<Rightarrow>
          (let h = fresh (sessions s1) in (Inr h, s1\<lparr>sessions := h # sessions s1\<rparr>)))"

text \<open>\<^verbatim>\<open>conn.close()\<close> on a connection object: it never raises.\<close>

definition conn_close :: "nat \<Rightarrow> state \<Rightarrow> state" where
  "conn_close h s = s\<lparr>sessions := removeAll h (sessions s)\<rparr>"

text \<open>
  \<^verbatim>\<open>self.conn.cursor()\<close>: an \<^verbatim>\<open>AttributeError\<close> when \<^verbatim>\<open>self.conn\<close> is
  \<^verbatim>\<open>None\<close>, otherwise a driver call (psycopg2 raises \<^verbatim>\<open>InterfaceError\<close> on a
  connection it knows to be closed). \<^verbatim>\<open>cursor.close()\<close> on an unnamed cursor never
  raises and has no effect that is modelled.
\<close>

definition conn_cursor :: "state \<Rightarrow> exn option \<times> state" where
  "conn_cursor s =
     (case conn s of
        None \<Rightarrow> (Some (AttributeError ''NoneType object has no attribute cursor''), s)
      | Some h \<Rightarrow> driver_call ''cursor'' s)"

text \<open>\<^verbatim>\<open>cursor.execute(sql)\<close>, and \<^verbatim>\<open>cursor.fetchone()\<close> / \<^verbatim>\<open>cursor.fetchall()\<close>.\<close>

definition cursor_execute :: "string \<Rightarrow> state \<Rightarrow> exn option \<times> state" where
  "cursor_execute sql s = driver_call sql s"

definition cursor_fetch :: "state \<Rightarrow> exn option \<times> state" where
  "cursor_fetch s = driver_call ''fetch'' s"

text \<open>\<^verbatim>\<open>cursor.execute(sql)\<close> followed by a fetch, inside one \<^verbatim>\<open>try\<close>.\<close>

definition execute_fetch :: "string \<Rightarrow> state \<Rightarrow> exn option \<times> state" where
  "execute_fetch sql s =
     (case cursor_execute sql s of
        (Some e, s1) \<Rightarrow> (Some e, s1)
      | (None, s1) \<Rightarrow> cursor_fetch s1)"

subsection \<open>Assignments to an experiment\<close>

definition set_start_time :: "ChaosExperiment \<times> state \<Rightarrow> ChaosExperiment \<times> state" where
  "set_start_time = (\<lambda>(e, s).
     (case now s of (t, s1) \<Rightarrow> (e\<lparr>start_time := Some t\<rparr>, emit (Set_start_time t) s1)))"

definition set_end_time :: "ChaosExperiment \<times> state \<Rightarrow> ChaosExperiment \<times> state" where
  "set_end_time = (\<lambda>(e, s).
     (case now s of (t, s1) \<Rightarrow> (e\<lparr>end_time := Some t\<rparr>, emit (Set_end_time t) s1)))"

definition set_result :: "string \<Rightarrow> ChaosExperiment \<times> state \<Rightarrow> ChaosExperiment \<times> state" where
  "set_result v = (\<lambda>(e, s). (e\<lparr>result := Some v\<rparr>, emit (Set_result v) s))"

definition append_observation ::
  "observation \<Rightarrow> ChaosExperiment \<times> state \<Rightarrow> ChaosExperiment \<times> state" where
  "append_observation ob = (\<lambda>(e, s). (e\<lparr>observations := observations e @ [ob]\<rparr>, s))"

text \<open>The \<^verbatim>\<open>except Exception as e\<close> handler shared by three injectors.\<close>

definition record_failure :: "exn \<Rightarrow> ChaosExperiment \<times> state \<Rightarrow> ChaosExperiment \<times> state" where
  "record_failure e es = set_result ''failed'' (append_observation (Error (str e)) es)"

text \<open>
  The common tail of the injectors: \<^verbatim>\<open>experiment.end_time = datetime.now()\<close>,
  \<^verbatim>\<open>self.experiments.append(experiment)\<close>, \<^verbatim>\<open>return experiment\<close>.
\<close>

definition finish :: "ChaosExperiment \<times> state \<Rightarrow> (exn + ChaosExperiment) \<times> state" where
  "finish es =
     (case set_end_time es of
        (e, s) \<Rightarrow> (Inr e, s\<lparr>experiments := experiments s @ [e]\<rparr>))"

subsection \<open>\<^verbatim>\<open>inject_high_cpu_load\<close>\<close>

definition cpu_query :: string where
  "cpu_query = ''SELECT COUNT(*) FROM test_data t1 CROSS JOIN test_data t2 LIMIT 100000''"

text \<open>The \<^verbatim>\<open>try\<close> block and its handler.\<close>

definition cpu_body :: "ChaosExperiment \<times> state \<Rightarrow> ChaosExperiment \<times> state" where
  "cpu_body = (\<lambda>(e, s1).
     (case execute_fetch cpu_query s1 of
        (None, s2) \<Rightarrow>
          set_result ''completed''
            (append_observation (Note ''CPU-intensive query executed'') (e, s2))
      | (Some x, s2) \<Rightarrow> record_failure x (e, s2)))"

definition inject_high_cpu_load :: "state \<Rightarrow> (exn + ChaosExperiment) \<times> state" where
  "inject_high_cpu_load s0 =
     (let es = set_start_time
                 (ChaosExperiment_init ''High CPU Load''
                    ''Simulate CPU saturation with expensive queries'' ''database'', s0)
      in case conn_cursor (snd es) of
           (Some e, s1) \<Rightarrow> (Inl e, s1)
         | (None, s1) \<Rightarrow> finish (cpu_body (fst es, s1)))"

subsection \<open>\<^verbatim>\<open>inject_connection_saturation\<close>\<close>

text \<open>
  The loop \<^verbatim>\<open>for i in range(max_connections)\<close>: it stops at the first
  \<^verbatim>\<open>psycopg2.connect\<close> that raises, and the connections opened before it stay in
  the list \<^verbatim>\<open>connections\<close>.
\<close>

fun acquire :: "nat \<Rightarrow> nat list \<Rightarrow> state \<Rightarrow> (exn option \<times> nat list) \<times> state" where
  "acquire 0 connections s = ((None, connections), s)"
| "acquire (Suc n) connections s =
     (case psycopg2_connect s of
        (Inl e, s1) \<Rightarrow> ((Some e, connections), s1)
      | (Inr c, s1) \<Rightarrow> acquire n (connections @ [c]) s1)"

text \<open>The \<^verbatim>\<open>finally\<close> block: \<^verbatim>\<open>for conn in connections: conn.close()\<close>.\<close>

fun close_all :: "nat list \<Rightarrow> state \<Rightarrow> state" where
  "close_all [] s = s"
| "close_all (c # cs) s = close_all cs (conn_close c s)"

text \<open>The inner \<^verbatim>\<open>try\<close> with its bare \<^verbatim>\<open>except\<close>: one more connection is attempted.\<close>

definition probe_extra :: "ChaosExperiment \<times> state \<Rightarrow> ChaosExperiment \<times> state" where
  "probe_extra = (\<lambda>(e, s).
     (case psycopg2_connect s of
        (Inr extra_conn, s1) \<Rightarrow>
          append_observation (Note ''Additional connection succeeded'')
            (e, conn_close extra_conn s1)
      | (Inl x, s1) \<Rightarrow>
          append_observation (Note ''Additional connection blocked (expected)'') (e, s1)))"

definition inject_connection_saturation :: "state \<Rightarrow> (exn + ChaosExperiment) \<times> state" where
  "inject_connection_saturation s0 =
     (let es = set_start_time
                 (ChaosExperiment_init ''Connection Saturation''
                    ''Exhaust available database connections'' ''connection_pool'', s0);
          max_connections = 10
      in case acquire max_connections [] (snd es) of
           ((r, connections), s1) \<Rightarrow>
             (let es2 =
                (case r of
                   None \<Rightarrow>
                     set_result ''completed''
                       (probe_extra
                          (append_observation (Created (length connections)) (fst es, s1)))
                 | Some e \<Rightarrow> record_failure e (fst es, s1))
              in finish (fst es2, close_all connections (snd es2))))"

subsection \<open>\<^verbatim>\<open>inject_slow_queries\<close>\<close>

text \<open>
  The \<^verbatim>\<open>try\<close> block and its handler. Reading a key that the dictionary
  \<^verbatim>\<open>baseline_metrics\<close> lacks raises \<^verbatim>\<open>KeyError\<close>, and dividing by a baseline
  of zero raises \<^verbatim>\<open>ZeroDivisionError\<close>; both are caught by the handler.
\<close>

definition slow_body :: "ChaosExperiment \<times> state \<Rightarrow> ChaosExperiment \<times> state" where
  "slow_body = (\<lambda>(e, s1).
     (case execute_fetch ''SELECT pg_sleep(2)'' s1 of
        (Some x, s2) \<Rightarrow> record_failure x (e, s2)
      | (None, s2) \<Rightarrow>
          (case now s2 of
             (start, s3) \<Rightarrow>
               (case execute_fetch ''SELECT COUNT(*) FROM test_data'' s3 of
                  (Some x, s4) \<Rightarrow> record_failure x (e, s4)
                | (None, s4) \<Rightarrow>
                    (case now s4 of
                       (stop, s5) \<Rightarrow>
                         (let latency = (stop - start) * 1000;
                              es1 = append_observation (Latency_during latency) (e, s5)
                          in case baseline_metrics s5 ''query_latency_ms'' of
                               None \<Rightarrow> record_failure (KeyError ''query_latency_ms'') es1
                             | Some b \<Rightarrow>
                                 (let es2 = append_observation (Baseline_latency b) es1
                                  in if b = 0
                                     then record_failure
                                            (ZeroDivisionError ''float division by zero'') es2
                                     else (let degradation = (latency - b) / b * 100
                                           in set_result ''completed''
                                                (append_observation (Degradation degradation)
                                                   es2)))))))))"

definition inject_slow_queries :: "state \<Rightarrow> (exn + ChaosExperiment) \<times> state" where
  "inject_slow_queries s0 =
     (let es = set_start_time
                 (ChaosExperiment_init ''Slow Query Injection''
                    ''Simulate database performance degradation'' ''query_performance'', s0)
      in case conn_cursor (snd es) of
           (Some e, s1) \<Rightarrow> (Inl e, s1)
         | (None, s1) \<Rightarrow> finish (slow_body (fst es, s1)))"

subsection \<open>\<^verbatim>\<open>inject_random_failures\<close>\<close>

text \<open>
  One iteration of \<^verbatim>\<open>for i in range(10)\<close>, on the pair
  \<open>(success_count, failure_count)\<close>. In the first branch the counter is incremented
  after \<^verbatim>\<open>cursor.execute("SELECT 1/0")\<close> when it returns, and by the handler
  when it raises.
\<close>

definition trial :: "nat \<times> nat \<Rightarrow> state \<Rightarrow> (nat \<times> nat) \<times> state" where
  "trial = (\<lambda>(success_count, failure_count) s.
     (case random s of
        (r, s1) \<Rightarrow>
          if r < 3 / 10 then
            (case cursor_execute ''SELECT 1/0'' s1 of
               (None, s2) \<Rightarrow> ((success_count, failure_count + 1), s2)
             | (Some e, s2) \<Rightarrow> ((success_count, failure_count + 1), s2))
          else
            (case execute_fetch ''SELECT 1'' s1 of
               (None, s2) \<Rightarrow> ((success_count + 1, failure_count), s2)
             | (Some e, s2) \<Rightarrow> ((success_count, failure_count + 1), s2))))"

fun trials :: "nat \<Rightarrow> nat \<times> nat \<Rightarrow> state \<Rightarrow> (nat \<times> nat) \<times> state" where
  "trials 0 c s = (c, s)"
| "trials (Suc n) c s = (case trial c s of (c1, s1) \<Rightarrow> trials n c1 s1)"

text \<open>The loop, the observation and the unconditional \<^verbatim>\<open>experiment.result = "completed"\<close>.\<close>

definition random_body :: "ChaosExperiment \<times> state \<Rightarrow> ChaosExperiment \<times> state" where
  "random_body = (\<lambda>(e, s1).
     (case trials 10 (0, 0) s1 of
        ((success_count, failure_count), s2) \<Rightarrow>
          set_result ''completed''
            (append_observation (Counts success_count failure_count) (e, s2))))"

definition inject_random_failures :: "state \<Rightarrow> (exn + ChaosExperiment) \<times> state" where
  "inject_random_failures s0 =
     (let es = set_start_time
                 (ChaosExperiment_init ''Random Transaction Failures''
                    ''Test application error handling'' ''transactions'', s0)
      in case conn_cursor (snd es) of
           (Some e, s1) \<Rightarrow> (Inl e, s1)
         | (None, s1) \<Rightarrow> finish (random_body (fst es, s1)))"

subsection \<open>\<^verbatim>\<open>test_recovery_time\<close>\<close>

text \<open>
  The loop \<^verbatim>\<open>while attempts < max_attempts\<close>: \<^verbatim>\<open>break\<close> on the first probe
  that succeeds; the bare \<^verbatim>\<open>except\<close> counts a failed probe. \<^verbatim>\<open>time.sleep\<close>
  only lets the clock advance, which the clock readings already account for.
\<close>

function probe_loop :: "nat \<Rightarrow> nat \<Rightarrow> state \<Rightarrow> nat \<times> state" where
  "probe_loop attempts max_attempts s =
     (if attempts < max_attempts then
        (case execute_fetch ''SELECT 1'' s of
           (None, s1) \<Rightarrow> (attempts, s1)
         | (Some e, s1) \<Rightarrow> probe_loop (attempts + 1) max_attempts s1)
      else (attempts, s))"
  by pat_completeness auto
termination
  by (relation "measure (\<lambda>(attempts, max_attempts, s). max_attempts - attempts)") auto

text \<open>The method returns \<^verbatim>\<open>recovery_time\<close>; the number of attempts goes to the log.\<close>

definition test_recovery_time :: "state \<Rightarrow> (exn + real) \<times> state" where
  "test_recovery_time s0 =
     (case conn_cursor s0 of
        (Some e, s1) \<Rightarrow> (Inl e, s1)
      | (None, s1) \<Rightarrow>
          (case now s1 of
             (recovery_start, s2) \<Rightarrow>
               (case probe_loop 0 10 s2 of
                  (attempts, s3) \<Rightarrow>
                    (case now s3 of
                       (stop, s4) \<Rightarrow>
                         (let recovery_time = (stop - recovery_start) * 1000
                          in (Inr recovery_time,
                              emit (Log_recovery recovery_time attempts) s4))))))"

subsection \<open>\<^verbatim>\<open>connect\<close>, \<^verbatim>\<open>setup\<close>, \<^verbatim>\<open>capture_baseline\<close>\<close>

text \<open>
  A method that returns nothing yields \<open>None\<close> when it returns and \<open>Some e\<close> when
  the exception \<open>e\<close> leaves it.
\<close>

definition connect :: "state \<Rightarrow> bool \<times> state" where
  "connect s =
     (case psycopg2_connect s of
        (Inr h, s1) \<Rightarrow> (True, s1\<lparr>conn := Some h\<rparr>)
      | (Inl e, s1) \<Rightarrow> (False, emit (Log_error (''Connection failed: '' @ str e)) s1))"

text \<open>\<^verbatim>\<open>setup\<close> (the name is reserved in Isabelle).\<close>

definition setup_db :: "state \<Rightarrow> exn option \<times> state" where
  "setup_db s =
     (case conn_cursor s of
        (Some e, s1) \<Rightarrow> (Some e, s1)
      | (None, s1) \<Rightarrow> cursor_execute ''CREATE TABLE IF NOT EXISTS test_data; INSERT INTO test_data'' s1)"

text \<open>
  The count read from \<^verbatim>\<open>pg_stat_activity\<close> is the number of sessions open on the
  target.
\<close>

definition capture_baseline :: "state \<Rightarrow> exn option \<times> state" where
  "capture_baseline s0 =
     (case conn_cursor s0 of
        (Some e, s1) \<Rightarrow> (Some e, s1)
      | (None, s1) \<Rightarrow>
          (case now s1 of
             (start, s2) \<Rightarrow>
               (case execute_fetch ''SELECT COUNT(*) FROM test_data'' s2 of
                  (Some e, s3) \<Rightarrow> (Some e, s3)
                | (None, s3) \<Rightarrow>
                    (case now s3 of
                       (stop, s4) \<Rightarrow>
                         (let latency = (stop - start) * 1000
                          in case execute_fetch ''SELECT count(*) FROM pg_stat_activity'' s4 of
                               (Some e, s5) \<Rightarrow> (Some e, s5)
                             | (None, s5) \<Rightarrow>
                                 (let connections = real (length (sessions s5))
                                  in case now s5 of
                                       (timestamp, s6) \<Rightarrow>
                                         (None,
                                          s6\<lparr>baseline_metrics :=
                                               [''query_latency_ms'' \<mapsto> latency,
                                                ''active_connections'' \<mapsto> connections,
                                                ''timestamp'' \<mapsto> timestamp]\<rparr>)))))))"

subsection \<open>\<^verbatim>\<open>generate_report\<close>\<close>

text \<open>
  The loop \<^verbatim>\<open>for i, exp in enumerate(self.experiments, 1)\<close>. Subtracting with a
  \<^verbatim>\<open>None\<close> time raises \<^verbatim>\<open>TypeError\<close>, and \<^verbatim>\<open>exp.result.upper()\<close> on a
  \<^verbatim>\<open>None\<close> result raises \<^verbatim>\<open>AttributeError\<close>, after the lines before it are
  printed.
\<close>

fun print_details :: "nat \<Rightarrow> ChaosExperiment list \<Rightarrow> state \<Rightarrow> exn option \<times> state" where
  "print_details i [] s = (None, s)"
| "print_details i (ex # exps) s =
     (case (start_time ex, end_time ex) of
        (Some t0, Some t1) \<Rightarrow>
          (let duration = t1 - t0;
               s1 = emit (Print_experiment i (name ex) (description ex) (blast_radius ex)
                            duration) s
           in case result ex of
                None \<Rightarrow> (Some (AttributeError ''NoneType object has no attribute upper''), s1)
              | Some r \<Rightarrow>
                  print_details (i + 1) exps (emit (Print_result r (observations ex)) s1))
      | _ \<Rightarrow> (Some (TypeError ''unsupported operand type(s) for -''), s))"

text \<open>
  The list comprehensions of lines 326 and 327, the score of line 354 and the
  assessment of lines 358 to 365.
\<close>

definition completed :: "ChaosExperiment list \<Rightarrow> ChaosExperiment list" where
  "completed exps = filter (\<lambda>e. result e = Some ''completed'') exps"

definition failed :: "ChaosExperiment list \<Rightarrow> ChaosExperiment list" where
  "failed exps = filter (\<lambda>e. result e = Some ''failed'') exps"

definition score :: "ChaosExperiment list \<Rightarrow> real" where
  "score exps =
     (if exps \<noteq> [] then real (length (completed exps)) / real (length exps) * 100 else 0)"

definition assessment :: "real \<Rightarrow> string" where
  "assessment sc =
     (if sc \<ge> 80 then ''EXCELLENT''
      else if sc \<ge> 60 then ''GOOD''
      else if sc \<ge> 40 then ''FAIR''
      else ''NEEDS IMPROVEMENT'')"

definition generate_report :: "state \<Rightarrow> exn option \<times> state" where
  "generate_report s =
     (let exps = experiments s;
          s1 = emit (Print_summary (length exps) (length (completed exps))
                       (length (failed exps))) s
      in case print_details 1 exps s1 of
           (Some e, s2) \<Rightarrow> (Some e, s2)
         | (None, s2) \<Rightarrow>
             (None,
              emit Print_recommendations
                (emit (Print_resilience (score exps) (assessment (score exps))) s2)))"

subsection \<open>\<^verbatim>\<open>run_chaos_suite\<close> and \<^verbatim>\<open>main\<close>\<close>

text \<open>Sequencing of two steps: an exception that leaves the first one skips the second.\<close>

definition seq ::
  "(state \<Rightarrow> exn option \<times> state) \<Rightarrow> (state \<Rightarrow> exn option \<times> state) \<Rightarrow>
   state \<Rightarrow> exn option \<times> state" where
  "seq f g s = (case f s of (Some e, s1) \<Rightarrow> (Some e, s1) | (None, s1) \<Rightarrow> g s1)"

text \<open>A call whose returned value is dropped.\<close>

definition call :: "(state \<Rightarrow> (exn + 'a) \<times> state) \<Rightarrow> state \<Rightarrow> exn option \<times> state" where
  "call f s = (case f s of (Inl e, s1) \<Rightarrow> (Some e, s1) | (Inr v, s1) \<Rightarrow> (None, s1))"

definition phase :: "string \<Rightarrow> state \<Rightarrow> exn option \<times> state" where
  "phase title s = (None, emit (Print_phase title) s)"

definition run_chaos_suite :: "state \<Rightarrow> exn option \<times> state" where
  "run_chaos_suite s0 =
     (case connect (emit Print_banner s0) of
        (False, s1) \<Rightarrow> (None, s1)
      | (True, s1) \<Rightarrow>
          seq setup_db
         (seq (phase ''PHASE 1: Establish Baseline'')
         (seq capture_baseline
         (seq (phase ''PHASE 2: CPU Load Experiment'')
         (seq (call inject_high_cpu_load)
         (seq (phase ''PHASE 3: Connection Saturation Experiment'')
         (seq (call inject_connection_saturation)
         (seq (phase ''PHASE 4: Slow Query Experiment'')
         (seq (call inject_slow_queries)
         (seq (phase ''PHASE 5: Random Failure Experiment'')
         (seq (call inject_random_failures)
         (seq (phase ''PHASE 6: Recovery Testing'')
         (seq (call test_recovery_time)
         (seq generate_report
              (\<lambda>s. (None, emit Print_key_features s))))))))))))))) s1)"

text \<open>\<^verbatim>\<open>ChaosFramework()\<close>: the attributes set by \<^verbatim>\<open>__init__\<close>.\<close>

definition ChaosFramework_init :: "state \<Rightarrow> state" where
  "ChaosFramework_init s = s\<lparr>conn := None, experiments := [], baseline_metrics := Map.empty\<rparr>"

text \<open>
  The script: \<^verbatim>\<open>main()\<close> builds a framework and runs the suite. The number is the
  exit status of the process: 0 when \<^verbatim>\<open>main\<close> returns, 1 when an exception leaves
  it (the interpreter prints the traceback). The source never calls \<^verbatim>\<open>sys.exit\<close>.
\<close>

definition main :: "state \<Rightarrow> nat \<times> state" where
  "main s =
     (case run_chaos_suite (ChaosFramework_init s) of
        (None, s1) \<Rightarrow> (0, s1)
      | (Some e, s1) \<Rightarrow> (1, s1))"

section \<open>Properties\<close>

subsection \<open>What an injector leaves behind\<close>

text \<open>The events that a run from \<open>s\<close> to \<open>s'\<close> added to the trace.\<close>

definition new_events :: "state \<Rightarrow> state \<Rightarrow> event list" where
  "new_events s s' = drop (length (trace s)) (trace s')"

text \<open>The driver calls among the events, and the values assigned to a result, in order.\<close>

fun is_driver_call :: "event \<Rightarrow> bool" where
  "is_driver_call (Driver_call q) = True"
| "is_driver_call _ = False"

fun result_sets :: "event list \<Rightarrow> string list" where
  "result_sets [] = []"
| "result_sets (Set_result v # evs) = v # result_sets evs"
| "result_sets (ev # evs) = result_sets evs"

text \<open>
  A run from \<open>s\<close> to \<open>s'\<close> that returned the experiment \<open>e\<close> recorded it: the
  first thing the run did was to assign the start time, read from the clock on entry;
  the end time is the last clock reading of the run; the result is \<open>completed\<close> or
  \<open>failed\<close> and was assigned exactly once; there is an observation; and \<open>e\<close> was
  appended to the registry.
\<close>

definition recorded :: "state \<Rightarrow> ChaosExperiment \<Rightarrow> state \<Rightarrow> bool" where
  "recorded s e s' \<longleftrightarrow>
     (case new_events s s' of
        Set_start_time t0 # evs \<Rightarrow> t0 = clock s (ticks s) \<and> start_time e = Some t0
      | _ \<Rightarrow> False) \<and>
     ticks s < ticks s' \<and>
     end_time e = Some (clock s (ticks s' - 1)) \<and>
     (result e = Some ''completed'' \<or> result e = Some ''failed'') \<and>
     map Some (result_sets (new_events s s')) = [result e] \<and>
     observations e \<noteq> [] \<and>
     experiments s' = experiments s @ [e]"

text \<open>
  A stretch of a run that reads the clock, draws random numbers and calls the driver,
  and leaves the framework object alone.
\<close>

definition quiet :: "state \<Rightarrow> state \<Rightarrow> bool" where
  "quiet s s' \<longleftrightarrow>
     clock s' = clock s \<and> ticks s \<le> ticks s' \<and> experiments s' = experiments s \<and>
     baseline_metrics s' = baseline_metrics s \<and> conn s' = conn s \<and>
     (\<exists>evs. trace s' = trace s @ evs \<and> list_all is_driver_call evs)"

text \<open>
  The experiment and the state at the end of the \<^verbatim>\<open>try\<close> statement of an injector
  that started in \<open>s1\<close> with the experiment \<open>e0\<close>: since then only the driver was
  called, and at the very end the result was assigned, once.
\<close>

definition decided :: "ChaosExperiment \<Rightarrow> state \<Rightarrow> ChaosExperiment \<times> state \<Rightarrow> bool" where
  "decided e0 s1 = (\<lambda>(e, s).
     clock s = clock s1 \<and> ticks s1 \<le> ticks s \<and> experiments s = experiments s1 \<and>
     start_time e = start_time e0 \<and> observations e \<noteq> [] \<and>
     (\<exists>evs v. trace s = trace s1 @ evs @ [Set_result v] \<and> list_all is_driver_call evs \<and>
        result e = Some v \<and> (v = ''completed'' \<or> v = ''failed'')))"

text \<open>
  \<^verbatim>\<open>self.conn\<close> is set and the next driver call, which for three of the injectors
  and for the prober is \<^verbatim>\<open>self.conn.cursor()\<close>, succeeds.
\<close>

definition cursor_ok :: "state \<Rightarrow> bool" where
  "cursor_ok s \<longleftrightarrow> conn s \<noteq> None \<and> driver s (calls s) = None"

text \<open>
  The two ways out of an injector: it returns its experiment, recorded; or an exception
  leaves it after the start time was set, with the registry as it was and no result
  assigned.
\<close>

definition returns_recorded :: "(state \<Rightarrow> (exn + ChaosExperiment) \<times> state) \<Rightarrow> state \<Rightarrow> bool" where
  "returns_recorded f s =
     (case f s of
        (Inr e, s') \<Rightarrow> recorded s e s'
      | (Inl x, s') \<Rightarrow> False)"

definition raises_unrecorded :: "(state \<Rightarrow> (exn + ChaosExperiment) \<times> state) \<Rightarrow> state \<Rightarrow> bool" where
  "raises_unrecorded f s =
     (case f s of
        (Inr e, s') \<Rightarrow> False
      | (Inl x, s') \<Rightarrow>
          experiments s' = experiments s \<and>
          (case new_events s s' of
             Set_start_time t0 # evs \<Rightarrow> result_sets evs = []
           | _ \<Rightarrow> False))"

text \<open>An experiment as an injector leaves it: both times and the result are set.\<close>

definition terminal :: "ChaosExperiment \<Rightarrow> bool" where
  "terminal e \<longleftrightarrow> start_time e \<noteq> None \<and> end_time e \<noteq> None \<and> result e \<noteq> None"

text \<open>Concrete experiments and states, used to instantiate the theorems.\<close>

definition sample_experiment :: "string \<Rightarrow> ChaosExperiment" where
  "sample_experiment v =
     \<lparr>name = ''Sample'', description = ''A finished experiment'', blast_radius = ''database'',
      start_time = Some 0, end_time = Some 2, result = Some v,
      observations = [Note ''done'']\<rparr>"

definition env_healthy :: state where
  "env_healthy =
     \<lparr>conn = Some 1, experiments = [],
      baseline_metrics = [''query_latency_ms'' \<mapsto> 5],
      clock = (\<lambda>n. real n / 2), ticks = 0,
      driver = (\<lambda>n. None), calls = 0,
      rnd = (\<lambda>n. if even n then 1 / 10 else 9 / 10), draws = 0,
      sessions = [1], trace = []\<rparr>"

text \<open>The end time of an experiment is not before its start time.\<close>

definition time_ordered :: "ChaosExperiment \<Rightarrow> bool" where
  "time_ordered e =
     (case (start_time e, end_time e) of
        (Some t0, Some t1) \<Rightarrow> t0 \<le> t1
      | _ \<Rightarrow> False)"

text \<open>
  The target has closed the connection of the suite and refuses every call; and a clock
  that is set back while the suite runs.
\<close>

definition env_closed :: state where
  "env_closed = env_healthy\<lparr>driver := (\<lambda>n. Some ''connection already closed'')\<rparr>"

definition env_clock_back :: state where
  "env_clock_back = env_healthy\<lparr>clock := (\<lambda>n. 10 - real n)\<rparr>"

text \<open>The counts that the random failure injector reports in its observation.\<close>

definition counts_of :: "ChaosExperiment \<Rightarrow> (nat \<times> nat) option" where
  "counts_of e = (case observations e of [Counts sc fc] \<Rightarrow> Some (sc, fc) | _ \<Rightarrow> None)"

text \<open>
  The state in which the body of a cursor-using injector starts: the start time is set
  and the cursor is acquired.
\<close>

definition entered :: "state \<Rightarrow> state" where
  "entered s = snd (conn_cursor (snd (set_start_time (ChaosExperiment_init [] [] [], s))))"

text \<open>
  Two states in which the random generator and the target will answer alike: they may
  differ in the clock, the registry, the baseline, the open sessions and the trace.
\<close>

definition same_answers :: "state \<Rightarrow> state \<Rightarrow> bool" where
  "same_answers s t \<longleftrightarrow>
     rnd s = rnd t \<and> draws s = draws t \<and> driver s = driver t \<and> calls s = calls t"

text \<open>The number of draws below the failure rate among \<open>n\<close> draws from position \<open>d\<close>.\<close>

fun injected :: "(nat \<Rightarrow> real) \<Rightarrow> nat \<Rightarrow> nat \<Rightarrow> nat" where
  "injected r d 0 = 0"
| "injected r d (Suc n) = (if r d < 3 / 10 then 1 else 0) + injected r (Suc d) n"

text \<open>
  The cursor is acquired and then every query raises; and every draw is below the
  failure rate while the target rejects each injected division by zero.
\<close>

definition env_flaky :: state where
  "env_flaky =
     env_healthy\<lparr>driver :=
       (\<lambda>n. if n = 0 then None else Some ''server closed the connection unexpectedly'')\<rparr>"

definition env_all_injected :: state where
  "env_all_injected =
     env_healthy\<lparr>rnd := (\<lambda>n. 0),
                 driver := (\<lambda>n. if n = 0 then None else Some ''division by zero'')\<rparr>"

text \<open>
  The latency that the slow query injector measures: the difference of the second and
  third clock readings of its run, in milliseconds.
\<close>

definition slow_latency :: "state \<Rightarrow> real" where
  "slow_latency s = (clock s (ticks s + 2) - clock s (ticks s + 1)) * 1000"

text \<open>The next \<open>k\<close> driver calls succeed.\<close>

definition answers :: "nat \<Rightarrow> state \<Rightarrow> bool" where
  "answers k s \<longleftrightarrow> (\<forall>i<k. driver s (calls s + i) = None)"

text \<open>An observation made by the handler \<^verbatim>\<open>except Exception as e\<close>.\<close>

fun is_error :: "observation \<Rightarrow> bool" where
  "is_error (Error m) = True"
| "is_error _ = False"

text \<open>The healthy environment before \<^verbatim>\<open>capture_baseline\<close> has run.\<close>

definition env_no_baseline :: state where
  "env_no_baseline = env_healthy\<lparr>baseline_metrics := Map.empty\<rparr>"

text \<open>Every liveness probe of the next ten fails at its \<^verbatim>\<open>execute\<close>.\<close>

definition probes_fail :: "state \<Rightarrow> bool" where
  "probes_fail s \<longleftrightarrow> (\<forall>i<10. driver s (Suc (calls s) + i) \<noteq> None)"

section \<open>Proofs\<close>

subsection \<open>Steps that leave the registry and the clock function alone\<close>

lemma quiet_refl: "quiet s s"
  by (simp add: quiet_def)

lemma quiet_trans: "quiet s s1 \<Longrightarrow> quiet s1 s2 \<Longrightarrow> quiet s s2"
  by (auto simp: quiet_def)

lemma quiet_driver_call: "quiet s (snd (driver_call q s))"
  by (simp add: quiet_def driver_call_def emit_def)

lemma quiet_now: "quiet s (snd (now s))"
  by (simp add: quiet_def now_def)

lemma quiet_random: "quiet s (snd (random s))"
  by (simp add: quiet_def random_def)

lemma quiet_execute_fetch: "quiet s (snd (execute_fetch q s))"
proof -
  obtain r s1 where d: "driver_call q s = (r, s1)" by (cases "driver_call q s")
  have s1: "quiet s s1" using quiet_driver_call [of s q] d by simp
  show ?thesis
  proof (cases r)
    case None
    then have "snd (execute_fetch q s) = snd (driver_call ''fetch'' s1)"
      by (simp add: execute_fetch_def cursor_execute_def cursor_fetch_def d)
    then show ?thesis
      using quiet_trans [OF s1 quiet_driver_call] by simp
  next
    case (Some e)
    then have "snd (execute_fetch q s) = s1"
      by (simp add: execute_fetch_def cursor_execute_def d)
    then show ?thesis by (simp add: s1)
  qed
qed

lemma result_sets_driver:
  "list_all is_driver_call evs \<Longrightarrow> result_sets (evs @ rest) = result_sets rest"
  by (induction evs rule: result_sets.induct) auto

lemma quiet_trial: "quiet s (snd (trial c s))"
proof -
  obtain sc fc where c: "c = (sc, fc)" by (cases c)
  let ?s1 = "snd (random s)"
  have "snd (trial c s) = snd (driver_call ''SELECT 1/0'' ?s1) \<or>
        snd (trial c s) = snd (execute_fetch ''SELECT 1'' ?s1)"
    by (simp add: c trial_def cursor_execute_def split: prod.splits option.splits)
  then show ?thesis
    using quiet_trans [OF quiet_random quiet_driver_call]
      quiet_trans [OF quiet_random quiet_execute_fetch]
    by auto
qed

lemma quiet_trials: "quiet s (snd (trials n c s))"
proof (induction n arbitrary: c s)
  case 0
  show ?case by (simp add: quiet_refl)
next
  case (Suc n)
  obtain c1 s1 where t: "trial c s = (c1, s1)" by (cases "trial c s")
  have "quiet s s1" using quiet_trial [of s c] t by simp
  then show ?case using Suc.IH [of s1 c1] t by (auto intro: quiet_trans)
qed

lemma quiet_connect: "quiet s (snd (psycopg2_connect s))"
proof -
  obtain r s1 where d: "driver_call ''connect'' s = (r, s1)" by (cases "driver_call ''connect'' s")
  have "quiet s s1" using quiet_driver_call [of s "''connect''"] d by simp
  then show ?thesis
    by (cases r) (auto simp: psycopg2_connect_def d Let_def quiet_def)
qed

lemma quiet_conn_close: "quiet s (conn_close h s)"
  by (simp add: quiet_def conn_close_def)

lemma quiet_close_all: "quiet s (close_all cs s)"
proof (induction cs arbitrary: s)
  case Nil
  show ?case by (simp add: quiet_refl)
next
  case (Cons c cs)
  show ?case using quiet_trans [OF quiet_conn_close Cons.IH] by simp
qed

lemma quiet_acquire: "quiet s (snd (acquire n cs s))"
proof (induction n arbitrary: cs s)
  case 0
  show ?case by (simp add: quiet_refl)
next
  case (Suc n)
  obtain r s1 where c: "psycopg2_connect s = (r, s1)" by (cases "psycopg2_connect s")
  have q: "quiet s s1" using quiet_connect [of s] c by simp
  show ?case
  proof (cases r)
    case (Inl e)
    with c q show ?thesis by simp
  next
    case (Inr h)
    with c show ?thesis using quiet_trans [OF q Suc.IH [of s1 "cs @ [h]"]] by simp
  qed
qed

subsection \<open>The \<^verbatim>\<open>try\<close> statement of an injector and its exit\<close>

lemma decided_set_result:
  assumes "quiet s1 s2" "start_time e = start_time e0" "observations e \<noteq> []"
    and "v = ''completed'' \<or> v = ''failed''"
  shows "decided e0 s1 (set_result v (e, s2))"
  using assms by (auto simp: decided_def set_result_def emit_def quiet_def)

lemma decided_record_failure:
  assumes "quiet s1 s2" "start_time e = start_time e0"
  shows "decided e0 s1 (record_failure x (e, s2))"
  unfolding record_failure_def append_observation_def
  using decided_set_result [OF assms(1), of "e\<lparr>observations := observations e @ [Error (str x)]\<rparr>" e0 "''failed''"] assms(2)
  by simp

lemma decided_quiet:
  assumes "decided e0 s1 (e, s2)" "quiet s2 s3" "trace s3 = trace s2"
  shows "decided e0 s1 (e, s3)"
  using assms by (auto simp: decided_def quiet_def)

lemma recorded_finish:
  assumes "decided e0 s1 es"
    and "trace s1 = trace s @ [Set_start_time (clock s (ticks s))]"
    and "ticks s1 = Suc (ticks s)" "clock s1 = clock s" "experiments s1 = experiments s"
    and "start_time e0 = Some (clock s (ticks s))"
  shows "\<exists>e'. fst (finish es) = Inr e' \<and> recorded s e' (snd (finish es))"
proof -
  obtain e s2 where es: "es = (e, s2)" by (cases es)
  from assms(1) obtain evs v where
    d: "clock s2 = clock s1" "ticks s1 \<le> ticks s2" "experiments s2 = experiments s1"
       "start_time e = start_time e0" "observations e \<noteq> []"
       "trace s2 = trace s1 @ evs @ [Set_result v]" "list_all is_driver_call evs"
       "result e = Some v" "v = ''completed'' \<or> v = ''failed''"
    by (auto simp: decided_def es)
  have "result_sets (evs @ [Set_result v, Set_end_time (clock s (ticks s2))]) = [v]"
    using d(7) by (simp add: result_sets_driver)
  then show ?thesis
    using d assms(2-)
    by (auto simp: es finish_def set_end_time_def now_def emit_def recorded_def new_events_def)
qed

lemma start_facts:
  "set_start_time (e0, s) = (e1, s1) \<Longrightarrow>
     trace s1 = trace s @ [Set_start_time (clock s (ticks s))] \<and>
     ticks s1 = Suc (ticks s) \<and> clock s1 = clock s \<and> experiments s1 = experiments s \<and>
     conn s1 = conn s \<and> driver s1 = driver s \<and> calls s1 = calls s \<and>
     baseline_metrics s1 = baseline_metrics s \<and> sessions s1 = sessions s \<and>
     rnd s1 = rnd s \<and> draws s1 = draws s \<and>
     e1 = e0\<lparr>start_time := Some (clock s (ticks s))\<rparr>"
  by (auto simp: set_start_time_def now_def emit_def)

lemma decided_after: "quiet s1 s2 \<Longrightarrow> decided e0 s2 es \<Longrightarrow> decided e0 s1 es"
  by (cases es) (auto simp: decided_def quiet_def)

lemma conn_cursor_ok: "cursor_ok s \<Longrightarrow> fst (conn_cursor s) = None"
  by (auto simp: cursor_ok_def conn_cursor_def driver_call_def)

lemma conn_cursor_fail: "\<not> cursor_ok s \<Longrightarrow> fst (conn_cursor s) \<noteq> None"
  by (auto simp: cursor_ok_def conn_cursor_def driver_call_def split: option.splits)

lemma quiet_conn_cursor: "quiet s (snd (conn_cursor s))"
  using quiet_driver_call [of s "''cursor''"]
  by (auto simp: conn_cursor_def quiet_refl split: option.splits)

lemma cpu_body_decided: "decided e s (cpu_body (e, s))"
proof -
  let ?ob = "Note ''CPU-intensive query executed''"
  obtain r s2 where ef: "execute_fetch cpu_query s = (r, s2)"
    by (cases "execute_fetch cpu_query s")
  have q: "quiet s s2" using quiet_execute_fetch [of s cpu_query] ef by simp
  show ?thesis
  proof (cases r)
    case None
    then show ?thesis
      using decided_set_result [OF q, of "e\<lparr>observations := observations e @ [?ob]\<rparr>" e "''completed''"]
      by (simp add: cpu_body_def ef append_observation_def)
  next
    case (Some x)
    then show ?thesis
      using decided_record_failure [OF q, of e e x] by (simp add: cpu_body_def ef)
  qed
qed

lemma random_body_decided: "decided e s (random_body (e, s))"
proof -
  obtain sc fc s2 where t: "trials 10 (0, 0) s = ((sc, fc), s2)"
    by (cases "trials 10 (0, 0) s") auto
  have q: "quiet s s2" using quiet_trials [of s 10 "(0, 0)"] t by simp
  show ?thesis
    using decided_set_result [OF q, of "e\<lparr>observations := observations e @ [Counts sc fc]\<rparr>" e "''completed''"]
    by (simp add: random_body_def t append_observation_def)
qed

lemma slow_body_decided: "decided e s (slow_body (e, s))"
proof -
  obtain r2 s2 where a: "execute_fetch ''SELECT pg_sleep(2)'' s = (r2, s2)"
    by (cases "execute_fetch ''SELECT pg_sleep(2)'' s")
  have q2: "quiet s s2" using quiet_execute_fetch [of s "''SELECT pg_sleep(2)''"] a by simp
  show ?thesis
  proof (cases r2)
    case (Some x)
    then show ?thesis using decided_record_failure [OF q2, of e e x] by (simp add: slow_body_def a)
  next
    case None
    obtain start s3 where n1: "now s2 = (start, s3)" by (cases "now s2")
    have q3: "quiet s s3" using quiet_trans [OF q2 quiet_now] n1 by simp
    obtain r4 s4 where b: "execute_fetch ''SELECT COUNT(*) FROM test_data'' s3 = (r4, s4)"
      by (cases "execute_fetch ''SELECT COUNT(*) FROM test_data'' s3")
    have q4: "quiet s s4"
      using quiet_trans [OF q3 quiet_execute_fetch [of s3 "''SELECT COUNT(*) FROM test_data''"]] b
      by simp
    show ?thesis
    proof (cases r4)
      case (Some x)
      then show ?thesis
        using decided_record_failure [OF q4, of e e x] None by (simp add: slow_body_def a n1 b)
    next
      case r4: None
      obtain stop s5 where n2: "now s4 = (stop, s5)" by (cases "now s4")
      have q5: "quiet s s5" using quiet_trans [OF q4 quiet_now] n2 by simp
      let ?e1 = "e\<lparr>observations := observations e @ [Latency_during ((stop - start) * 1000)]\<rparr>"
      show ?thesis
      proof (cases "baseline_metrics s5 ''query_latency_ms''")
        case bn: None
        show ?thesis
          using decided_record_failure [OF q5, of ?e1 e "KeyError ''query_latency_ms''"] None r4 bn
          by (simp add: slow_body_def a n1 b n2 Let_def append_observation_def)
      next
        case bs: (Some bl)
        let ?e2 = "?e1\<lparr>observations := observations ?e1 @ [Baseline_latency bl]\<rparr>"
        show ?thesis
        proof (cases "bl = 0")
          case True
          then show ?thesis
            using decided_record_failure [OF q5, of ?e2 e "ZeroDivisionError ''float division by zero''"]
              None r4 bs
            by (simp add: slow_body_def a n1 b n2 Let_def append_observation_def)
        next
          case False
          then show ?thesis
            using decided_set_result [OF q5, of
                "?e2\<lparr>observations := observations ?e2 @
                     [Degradation (((stop - start) * 1000 - bl) / bl * 100)]\<rparr>" e "''completed''"]
              None r4 bs
            by (simp add: slow_body_def a n1 b n2 Let_def append_observation_def)
        qed
      qed
    qed
  qed
qed

lemma with_cursor_returns:
  assumes ok: "cursor_ok s"
    and body: "\<And>e s2. decided e s2 (body (e, s2))"
    and f: "\<And>s0. f s0 =
              (let es = set_start_time (e0, s0)
               in case conn_cursor (snd es) of
                    (Some x, s1) \<Rightarrow> (Inl x, s1)
                  | (None, s1) \<Rightarrow> finish (body (fst es, s1)))"
  shows "returns_recorded f s"
proof -
  obtain e1 s1 where st: "set_start_time (e0, s) = (e1, s1)" by (cases "set_start_time (e0, s)")
  note sf = start_facts [OF st]
  obtain r s2 where cc: "conn_cursor s1 = (r, s2)" by (cases "conn_cursor s1")
  have "cursor_ok s1" using ok sf by (simp add: cursor_ok_def)
  then have r: "r = None" using conn_cursor_ok [of s1] cc by simp
  have q: "quiet s1 s2" using quiet_conn_cursor [of s1] cc by simp
  have d: "decided e1 s1 (body (e1, s2))" using decided_after [OF q body] .
  have "start_time e1 = Some (clock s (ticks s))" using sf by simp
  then obtain e' where "fst (finish (body (e1, s2))) = Inr e'"
    "recorded s e' (snd (finish (body (e1, s2))))"
    using recorded_finish [OF d, of s] sf by blast
  then show ?thesis
    by (cases "finish (body (e1, s2))") (simp add: returns_recorded_def f st cc r)
qed

lemma with_cursor_raises:
  assumes ok: "\<not> cursor_ok s"
    and f: "\<And>s0. f s0 =
              (let es = set_start_time (e0, s0)
               in case conn_cursor (snd es) of
                    (Some x, s1) \<Rightarrow> (Inl x, s1)
                  | (None, s1) \<Rightarrow> finish (body (fst es, s1)))"
  shows "raises_unrecorded f s"
proof -
  obtain e1 s1 where st: "set_start_time (e0, s) = (e1, s1)" by (cases "set_start_time (e0, s)")
  note sf = start_facts [OF st]
  obtain r s2 where cc: "conn_cursor s1 = (r, s2)" by (cases "conn_cursor s1")
  have "\<not> cursor_ok s1" using ok sf by (simp add: cursor_ok_def)
  then obtain x where r: "r = Some x" using conn_cursor_fail [of s1] cc by auto
  have q: "quiet s1 s2" using quiet_conn_cursor [of s1] cc by simp
  then obtain evs where "trace s2 = trace s1 @ evs" "list_all is_driver_call evs"
    "experiments s2 = experiments s1"
    by (auto simp: quiet_def)
  then show ?thesis
    using sf result_sets_driver [of evs "[]"]
    by (simp add: raises_unrecorded_def f st cc r new_events_def)
qed

lemma cpu_returns: "cursor_ok s \<Longrightarrow> returns_recorded inject_high_cpu_load s"
  by (rule with_cursor_returns [OF _ cpu_body_decided inject_high_cpu_load_def])

lemma slow_returns: "cursor_ok s \<Longrightarrow> returns_recorded inject_slow_queries s"
  by (rule with_cursor_returns [OF _ slow_body_decided inject_slow_queries_def])

lemma random_returns: "cursor_ok s \<Longrightarrow> returns_recorded inject_random_failures s"
  by (rule with_cursor_returns [OF _ random_body_decided inject_random_failures_def])

lemma cpu_raises: "\<not> cursor_ok s \<Longrightarrow> raises_unrecorded inject_high_cpu_load s"
  by (rule with_cursor_raises [OF _ inject_high_cpu_load_def])

lemma slow_raises: "\<not> cursor_ok s \<Longrightarrow> raises_unrecorded inject_slow_queries s"
  by (rule with_cursor_raises [OF _ inject_slow_queries_def])

lemma random_raises: "\<not> cursor_ok s \<Longrightarrow> raises_unrecorded inject_random_failures s"
  by (rule with_cursor_raises [OF _ inject_random_failures_def])

lemma probe_extra_quiet:
  "probe_extra (e, s) = (e', s') \<Longrightarrow>
     quiet s s' \<and> start_time e' = start_time e \<and> observations e' \<noteq> []"
proof -
  assume p: "probe_extra (e, s) = (e', s')"
  obtain r s1 where c: "psycopg2_connect s = (r, s1)" by (cases "psycopg2_connect s")
  have q: "quiet s s1" using quiet_connect [of s] c by simp
  show ?thesis
  proof (cases r)
    case (Inl x)
    with p c q show ?thesis by (auto simp: probe_extra_def append_observation_def)
  next
    case (Inr h)
    with p c quiet_trans [OF q quiet_conn_close [of s1 h]] show ?thesis
      by (auto simp: probe_extra_def append_observation_def)
  qed
qed

lemma trace_close_all: "trace (close_all cs s) = trace s"
  by (induction cs arbitrary: s) (auto simp: conn_close_def)

lemma saturation_returns: "returns_recorded inject_connection_saturation s"
proof -
  let ?e0 = "ChaosExperiment_init ''Connection Saturation''
               ''Exhaust available database connections'' ''connection_pool''"
  obtain e1 s1 where st: "set_start_time (?e0, s) = (e1, s1)"
    by (cases "set_start_time (?e0, s)")
  note sf = start_facts [OF st]
  obtain r cs s2 where a: "acquire 10 [] s1 = ((r, cs), s2)"
    by (cases "acquire 10 [] s1") auto
  have q: "quiet s1 s2" using quiet_acquire [of s1 10 "[]"] a by simp
  define es2 where "es2 =
    (case r of
       None \<Rightarrow> set_result ''completed''
                 (probe_extra (append_observation (Created (length cs)) (e1, s2)))
     | Some x \<Rightarrow> record_failure x (e1, s2))"
  have d: "decided e1 s1 es2"
  proof (cases r)
    case (Some x)
    then show ?thesis using decided_record_failure [OF q, of e1 e1 x] by (simp add: es2_def)
  next
    case None
    obtain e3 s3 where p: "probe_extra (e1\<lparr>observations := observations e1 @ [Created (length cs)]\<rparr>, s2) = (e3, s3)"
      by (cases "probe_extra (e1\<lparr>observations := observations e1 @ [Created (length cs)]\<rparr>, s2)")
    from probe_extra_quiet [OF p] have "quiet s1 s3" "start_time e3 = start_time e1"
      "observations e3 \<noteq> []"
      using quiet_trans [OF q] by auto
    then show ?thesis
      using decided_set_result [of s1 s3 e3 e1 "''completed''"] None p
      by (simp add: es2_def append_observation_def)
  qed
  have d2: "decided e1 s1 (fst es2, close_all cs (snd es2))"
    using decided_quiet [of e1 s1 "fst es2" "snd es2" "close_all cs (snd es2)"] d
      quiet_close_all [of "snd es2" cs] trace_close_all [of cs "snd es2"]
    by simp
  have "start_time e1 = Some (clock s (ticks s))" using sf by simp
  then obtain e' where "fst (finish (fst es2, close_all cs (snd es2))) = Inr e'"
    "recorded s e' (snd (finish (fst es2, close_all cs (snd es2))))"
    using recorded_finish [OF d2, of s] sf by blast
  moreover have "inject_connection_saturation s = finish (fst es2, close_all cs (snd es2))"
    by (cases r) (simp_all add: inject_connection_saturation_def st a es2_def Let_def)
  ultimately show ?thesis
    by (cases "finish (fst es2, close_all cs (snd es2))") (simp add: returns_recorded_def)
qed

lemma foldr_max_ge: "h \<in> set hs \<Longrightarrow> h \<le> foldr max hs (0::nat)"
  by (induction hs) auto

lemma fresh_notin: "fresh hs \<notin> set hs"
  using foldr_max_ge [of "fresh hs" hs] by (auto simp: fresh_def)

lemma sessions_close_all:
  "sessions (close_all cs s) = filter (\<lambda>h. h \<notin> set cs) (sessions s)"
proof (induction cs arbitrary: s)
  case Nil
  show ?case by simp
next
  case (Cons c cs)
  show ?case
    by (auto simp: Cons.IH conn_close_def removeAll_filter_not_eq intro: filter_cong)
qed

subsection \<open>The report: score and assessment\<close>

lemma trace_print_details:
  "\<exists>evs. trace (snd (print_details i exps s)) = trace s @ evs"
proof (induction exps arbitrary: i s)
  case Nil
  then show ?case by simp
next
  case (Cons ex exps)
  show ?case
  proof (cases "start_time ex")
    case None
    then show ?thesis by simp
  next
    case st: (Some t0)
    show ?thesis
    proof (cases "end_time ex")
      case None
      with st show ?thesis by simp
    next
      case en: (Some t1)
      show ?thesis
      proof (cases "result ex")
        case None
        with st en show ?thesis by (simp add: emit_def)
      next
        case (Some r)
        let ?s2 = "emit (Print_result r (observations ex))
            (emit (Print_experiment i (name ex) (description ex) (blast_radius ex) (t1 - t0)) s)"
        from Cons.IH [of "i + 1" ?s2]
        obtain evs where "trace (snd (print_details (i + 1) exps ?s2)) = trace ?s2 @ evs"
          by blast
        with st en Some show ?thesis by (simp add: emit_def)
      qed
    qed
  qed
qed

lemma print_details_returns:
  "list_all terminal exps \<Longrightarrow> fst (print_details i exps s) = None"
  by (induction exps arbitrary: i s) (auto simp: terminal_def)

lemma generate_report_prints:
  assumes "fst (generate_report s) = None"
  shows "Print_resilience (score (experiments s)) (assessment (score (experiments s)))
           \<in> set (new_events s (snd (generate_report s)))"
proof -
  let ?s1 = "emit (Print_summary (length (experiments s)) (length (completed (experiments s)))
                     (length (failed (experiments s)))) s"
  obtain r s2 where p: "print_details 1 (experiments s) ?s1 = (r, s2)"
    by (cases "print_details 1 (experiments s) ?s1")
  obtain evs where "trace s2 = trace ?s1 @ evs"
    using trace_print_details [of 1 "experiments s" ?s1] p by auto
  then show ?thesis
    using assms p
    by (cases r) (auto simp: generate_report_def Let_def emit_def new_events_def)
qed

lemma generate_report_returns:
  "list_all terminal (experiments s) \<Longrightarrow> fst (generate_report s) = None"
proof -
  assume t: "list_all terminal (experiments s)"
  let ?s1 = "emit (Print_summary (length (experiments s)) (length (completed (experiments s)))
                     (length (failed (experiments s)))) s"
  obtain r s2 where p: "print_details 1 (experiments s) ?s1 = (r, s2)"
    by (cases "print_details 1 (experiments s) ?s1")
  have "r = None" using print_details_returns [OF t, of 1 ?s1] p by simp
  then show ?thesis using p by (simp add: generate_report_def Let_def)
qed

text \<open>
  C2. The resilience score of the report is 100 times the number of experiments whose
  result is \<open>completed\<close> divided by the number of experiments, and 0 for an empty
  registry. Whenever every experiment of the registry has its times and result set, as
  the injectors leave them, \<open>generate_report\<close> returns and prints this score.
\<close>

theorem resilience_score:
  "score exps =
     (if exps = [] then 0
      else 100 * real (length (filter (\<lambda>e. result e = Some ''completed'') exps)) /
           real (length exps)) \<and>
   (list_all terminal (experiments s) \<longrightarrow>
      fst (generate_report s) = None \<and>
      Print_resilience (score (experiments s)) (assessment (score (experiments s)))
        \<in> set (new_events s (snd (generate_report s))))"
  using generate_report_returns [of s] generate_report_prints [of s]
  by (simp add: score_def completed_def)

theorem resilience_score_witness:
  "list_all terminal [sample_experiment ''completed'', sample_experiment ''failed''] \<and>
   score [sample_experiment ''completed'', sample_experiment ''failed''] = 50 \<and>
   fst (generate_report
          (env_healthy\<lparr>experiments :=
             [sample_experiment ''completed'', sample_experiment ''failed'']\<rparr>)) = None \<and>
   Print_resilience 50 ''FAIR''
     \<in> set (new_events
              (env_healthy\<lparr>experiments :=
                 [sample_experiment ''completed'', sample_experiment ''failed'']\<rparr>)
              (snd (generate_report
                      (env_healthy\<lparr>experiments :=
                         [sample_experiment ''completed'', sample_experiment ''failed'']\<rparr>))))"
  using resilience_score
          [of "[sample_experiment ''completed'', sample_experiment ''failed'']"
              "env_healthy\<lparr>experiments :=
                 [sample_experiment ''completed'', sample_experiment ''failed'']\<rparr>"]
  by (simp add: terminal_def sample_experiment_def assessment_def score_def completed_def)

text \<open>
  C3. The assessment is decided by thresholds tried from the top: at least 80 is
  EXCELLENT, otherwise at least 60 is GOOD, otherwise at least 40 is FAIR, otherwise
  NEEDS IMPROVEMENT. Three completed experiments out of five score 60 and are GOOD; two
  out of five score 40 and are FAIR.
\<close>

theorem assessment_thresholds:
  "(assessment sc = ''EXCELLENT'' \<longleftrightarrow> 80 \<le> sc) \<and>
   (assessment sc = ''GOOD'' \<longleftrightarrow> 60 \<le> sc \<and> sc < 80) \<and>
   (assessment sc = ''FAIR'' \<longleftrightarrow> 40 \<le> sc \<and> sc < 60) \<and>
   (assessment sc = ''NEEDS IMPROVEMENT'' \<longleftrightarrow> sc < 40) \<and>
   (length exps = 5 \<and> length (completed exps) = 3 \<longrightarrow>
      score exps = 60 \<and> assessment (score exps) = ''GOOD'') \<and>
   (length exps = 5 \<and> length (completed exps) = 2 \<longrightarrow>
      score exps = 40 \<and> assessment (score exps) = ''FAIR'')"
  by (auto simp: score_def assessment_def)

theorem assessment_thresholds_witness:
  "length (replicate 3 (sample_experiment ''completed'') @
           replicate 2 (sample_experiment ''failed'')) = 5 \<and>
   length (completed (replicate 3 (sample_experiment ''completed'') @
                      replicate 2 (sample_experiment ''failed''))) = 3 \<and>
   assessment (score (replicate 3 (sample_experiment ''completed'') @
                      replicate 2 (sample_experiment ''failed''))) = ''GOOD'' \<and>
   length (replicate 2 (sample_experiment ''completed'') @
           replicate 3 (sample_experiment ''failed'')) = 5 \<and>
   length (completed (replicate 2 (sample_experiment ''completed'') @
                      replicate 3 (sample_experiment ''failed''))) = 2 \<and>
   assessment (score (replicate 2 (sample_experiment ''completed'') @
                      replicate 3 (sample_experiment ''failed''))) = ''FAIR''"
  using assessment_thresholds
          [of 60 "replicate 3 (sample_experiment ''completed'') @
                  replicate 2 (sample_experiment ''failed'')"]
        assessment_thresholds
          [of 40 "replicate 2 (sample_experiment ''completed'') @
                  replicate 3 (sample_experiment ''failed'')"]
  by (simp add: completed_def sample_experiment_def)

subsection \<open>Sessions held by the connection saturation injector\<close>

lemma sessions_connect:
  "psycopg2_connect s = (r, s1) \<Longrightarrow>
     (case r of
        Inl x \<Rightarrow> sessions s1 = sessions s
      | Inr h \<Rightarrow> sessions s1 = h # sessions s \<and> h \<notin> set (sessions s))"
  using fresh_notin [of "sessions s"]
  by (auto simp: psycopg2_connect_def driver_call_def emit_def Let_def
        split: option.splits sum.splits)

lemma acquire_sessions:
  "acquire n cs s = ((r, cs'), s') \<Longrightarrow>
     \<exists>new. cs' = cs @ new \<and> sessions s' = rev new @ sessions s \<and>
           set new \<inter> set (sessions s) = {}"
proof (induction n arbitrary: cs s)
  case 0
  then show ?case by simp
next
  case (Suc n)
  obtain c s1 where c: "psycopg2_connect s = (c, s1)" by (cases "psycopg2_connect s")
  show ?case
  proof (cases c)
    case (Inl x)
    with Suc.prems c sessions_connect [OF c] show ?thesis by simp
  next
    case (Inr h)
    with sessions_connect [OF c] have h: "sessions s1 = h # sessions s" "h \<notin> set (sessions s)"
      by simp_all
    from Suc.prems c Inr have "acquire n (cs @ [h]) s1 = ((r, cs'), s')" by simp
    from Suc.IH [OF this] obtain new where
      "cs' = (cs @ [h]) @ new" "sessions s' = rev new @ sessions s1"
      "set new \<inter> set (sessions s1) = {}"
      by blast
    with h have "cs' = cs @ (h # new) \<and> sessions s' = rev (h # new) @ sessions s \<and>
       set (h # new) \<inter> set (sessions s) = {}"
      by auto
    then show ?thesis by blast
  qed
qed

lemma probe_extra_sessions: "sessions (snd (probe_extra (e, s))) = sessions s"
proof -
  obtain r s1 where c: "psycopg2_connect s = (r, s1)" by (cases "psycopg2_connect s")
  show ?thesis
    using sessions_connect [OF c]
    by (cases r) (auto simp: probe_extra_def c append_observation_def conn_close_def)
qed

lemma sessions_set_result: "sessions (snd (set_result v es)) = sessions (snd es)"
  by (cases es) (simp add: set_result_def emit_def)

lemma sessions_append_observation: "sessions (snd (append_observation ob es)) = sessions (snd es)"
  by (cases es) (simp add: append_observation_def)

lemma sessions_record_failure: "sessions (snd (record_failure x es)) = sessions (snd es)"
  by (simp add: record_failure_def sessions_set_result sessions_append_observation)

lemma sessions_finish: "sessions (snd (finish es)) = sessions (snd es)"
  by (cases es) (simp add: finish_def set_end_time_def now_def emit_def)

lemma finish_returns: "\<exists>e. fst (finish es) = Inr e"
  by (cases es) (simp add: finish_def set_end_time_def now_def)

text \<open>
  C4. The connection saturation injector returns on every execution, whatever the
  driver answers, and when it returns the sessions open on the target are exactly those
  that were open before it ran: every session it acquired has been closed, so the
  number of active connections is the one before the experiment.
\<close>

theorem saturation_releases_sessions:
  "(\<exists>e. fst (inject_connection_saturation s) = Inr e) \<and>
   sessions (snd (inject_connection_saturation s)) = sessions s \<and>
   length (sessions (snd (inject_connection_saturation s))) = length (sessions s)"
proof -
  let ?e0 = "ChaosExperiment_init ''Connection Saturation''
               ''Exhaust available database connections'' ''connection_pool''"
  obtain e1 s1 where st: "set_start_time (?e0, s) = (e1, s1)"
    by (cases "set_start_time (?e0, s)")
  have s1: "sessions s1 = sessions s" using start_facts [OF st] by simp
  obtain r cs s2 where a: "acquire 10 [] s1 = ((r, cs), s2)"
    by (cases "acquire 10 [] s1") auto
  from acquire_sessions [OF a] have
    s2: "sessions s2 = rev cs @ sessions s1" "set cs \<inter> set (sessions s1) = {}"
    by auto
  define es2 where "es2 =
    (case r of
       None \<Rightarrow> set_result ''completed''
                 (probe_extra (append_observation (Created (length cs)) (e1, s2)))
     | Some x \<Rightarrow> record_failure x (e1, s2))"
  have "sessions (snd es2) = sessions s2"
  proof (cases r)
    case None
    then show ?thesis
      using probe_extra_sessions [of "e1\<lparr>observations := observations e1 @ [Created (length cs)]\<rparr>" s2]
      by (simp add: es2_def sessions_set_result append_observation_def)
  next
    case (Some x)
    then show ?thesis by (simp add: es2_def sessions_record_failure)
  qed
  then have "sessions (close_all cs (snd es2)) = sessions s1"
    using s2 by (auto simp: sessions_close_all filter_id_conv)
  moreover have eq: "inject_connection_saturation s = finish (fst es2, close_all cs (snd es2))"
    by (cases r) (simp_all add: inject_connection_saturation_def st a es2_def Let_def)
  ultimately have "sessions (snd (inject_connection_saturation s)) = sessions s"
    by (simp add: sessions_finish s1)
  then show ?thesis using finish_returns [of "(fst es2, close_all cs (snd es2))"] eq by simp
qed

text \<open>In a healthy environment the loop does open ten sessions.\<close>

lemma acquire_opens_sessions: "length (sessions (snd (acquire 10 [] env_healthy))) = 11"
  by (simp add: env_healthy_def eval_nat_numeral psycopg2_connect_def driver_call_def emit_def fresh_def Let_def)

subsection \<open>Exit paths of the four injectors\<close>

lemmas prims =
  set_start_time_def set_end_time_def set_result_def append_observation_def record_failure_def
  finish_def now_def emit_def driver_call_def conn_cursor_def cursor_execute_def cursor_fetch_def
  execute_fetch_def psycopg2_connect_def conn_close_def fresh_def ChaosExperiment_init_def Let_def

lemma recorded_time_ordered: "recorded s e s' \<Longrightarrow> mono (clock s) \<Longrightarrow> time_ordered e"
proof -
  assume r: "recorded s e s'" and m: "mono (clock s)"
  from r have "start_time e = Some (clock s (ticks s))" "end_time e = Some (clock s (ticks s' - 1))"
    "ticks s < ticks s'"
    by (auto simp: recorded_def split: list.splits event.splits)
  moreover have "clock s (ticks s) \<le> clock s (ticks s' - 1)"
    using m \<open>ticks s < ticks s'\<close> by (auto simp: mono_def)
  ultimately show ?thesis by (simp add: time_ordered_def)
qed

lemma returns_time_ordered:
  "returns_recorded f s \<Longrightarrow> mono (clock s) \<Longrightarrow>
     (case fst (f s) of Inr e \<Rightarrow> time_ordered e | Inl x \<Rightarrow> True)"
  using recorded_time_ordered [of s _ "snd (f s)"]
  by (auto simp: returns_recorded_def split: prod.splits sum.splits)

lemma raises_time_ordered:
  "raises_unrecorded f s \<Longrightarrow> (case fst (f s) of Inr e \<Rightarrow> time_ordered e | Inl x \<Rightarrow> True)"
  by (auto simp: raises_unrecorded_def split: prod.splits sum.splits)

text \<open>
  C1, as amended. In every execution of an injector the first thing it does to the
  outside is to set the start time of its experiment, from the clock, before any driver
  call. The connection saturation injector returns in every execution. The CPU load,
  slow query and random failure injectors return when \<^verbatim>\<open>self.conn.cursor()\<close>
  succeeds; when it raises, the exception leaves the injector, no experiment is added
  to the registry and no result is assigned. Whenever an injector returns, the
  experiment it returns has been appended to the registry, its end time is set, its
  result has been assigned exactly once, to \<open>completed\<close> or \<open>failed\<close>, and it
  holds at least one observation; and its end time is not before its start time when
  the clock never goes backwards.
\<close>

theorem injector_exits:
  "returns_recorded inject_connection_saturation s \<and>
   (\<forall>f \<in> {inject_high_cpu_load, inject_slow_queries, inject_random_failures}.
      if cursor_ok s then returns_recorded f s else raises_unrecorded f s) \<and>
   (\<forall>f \<in> {inject_high_cpu_load, inject_connection_saturation, inject_slow_queries,
           inject_random_failures}.
      mono (clock s) \<longrightarrow> (case fst (f s) of Inr e \<Rightarrow> time_ordered e | Inl x \<Rightarrow> True))"
proof (cases "cursor_ok s")
  case True
  then show ?thesis
    using saturation_returns [of s] cpu_returns [of s] slow_returns [of s] random_returns [of s]
      returns_time_ordered [of _ s]
    by simp
next
  case False
  then show ?thesis
    using saturation_returns [of s] cpu_raises [of s] slow_raises [of s] random_raises [of s]
      returns_time_ordered [of inject_connection_saturation s] raises_time_ordered [of _ s]
    by simp
qed

theorem injector_exits_witness:
  "cursor_ok env_healthy \<and> mono (clock env_healthy) \<and>
   returns_recorded inject_connection_saturation env_healthy \<and>
   returns_recorded inject_high_cpu_load env_healthy \<and>
   returns_recorded inject_slow_queries env_healthy \<and>
   returns_recorded inject_random_failures env_healthy \<and>
   (case fst (inject_slow_queries env_healthy) of Inr e \<Rightarrow> time_ordered e | Inl x \<Rightarrow> True) \<and>
   \<not> cursor_ok env_closed \<and>
   raises_unrecorded inject_high_cpu_load env_closed \<and>
   raises_unrecorded inject_slow_queries env_closed \<and>
   raises_unrecorded inject_random_failures env_closed"
  using injector_exits [of env_healthy] injector_exits [of env_closed]
  by (simp add: cursor_ok_def env_healthy_def env_closed_def mono_def divide_right_mono)

theorem injector_exits_counterexample:
  "fst (inject_high_cpu_load env_closed) = Inl (DriverError ''connection already closed'') \<and>
   experiments (snd (inject_high_cpu_load env_closed)) = [] \<and>
   result_sets (trace (snd (inject_high_cpu_load env_closed))) = [] \<and>
   map_sum id (\<lambda>e. (start_time e, end_time e)) (fst (inject_high_cpu_load env_clock_back)) =
     Inr (Some 10, Some 9)"
  by (simp add: inject_high_cpu_load_def cpu_body_def env_closed_def env_clock_back_def env_healthy_def prims)

subsection \<open>Counts of the random failure injector\<close>

lemma trial_counts:
  "fst (trial (sc, fc) s) = (Suc sc, fc) \<or> fst (trial (sc, fc) s) = (sc, Suc fc)"
  by (simp add: trial_def split: prod.splits option.splits)

lemma trials_sum:
  "fst (fst (trials n c s)) + snd (fst (trials n c s)) = fst c + snd c + n"
proof (induction n arbitrary: c s)
  case 0
  show ?case by simp
next
  case (Suc n)
  obtain sc fc where c: "c = (sc, fc)" by (cases c)
  obtain c1 s1 where t: "trial (sc, fc) s = (c1, s1)" by (cases "trial (sc, fc) s")
  have "fst c1 + snd c1 = Suc (sc + fc)" using trial_counts [of sc fc s] t by auto
  then show ?case using Suc.IH [of c1 s1] by (simp add: c t)
qed

lemma entered_facts:
  "snd (conn_cursor (snd (set_start_time (e, s)))) = entered s \<and>
   quiet (snd (set_start_time (e, s))) (entered s) \<and>
   rnd (entered s) = rnd s \<and> draws (entered s) = draws s \<and> driver (entered s) = driver s \<and>
   (conn s \<noteq> None \<longrightarrow> calls (entered s) = Suc (calls s))"
  using quiet_conn_cursor [of "snd (set_start_time (e, s))"]
  by (auto simp: entered_def set_start_time_def now_def emit_def conn_cursor_def driver_call_def
        split: option.splits)

lemma random_run:
  assumes ok: "cursor_ok s"
  shows "\<exists>e s'. inject_random_failures s = (Inr e, s') \<and>
           observations e = [Counts (fst (fst (trials 10 (0, 0) (entered s))))
                                    (snd (fst (trials 10 (0, 0) (entered s))))] \<and>
           result e = Some ''completed'' \<and> experiments s' = experiments s @ [e]"
proof -
  let ?e0 = "ChaosExperiment_init ''Random Transaction Failures''
               ''Test application error handling'' ''transactions''"
  obtain e1 s1 where st: "set_start_time (?e0, s) = (e1, s1)"
    by (cases "set_start_time (?e0, s)")
  note sf = start_facts [OF st]
  have en: "snd (conn_cursor s1) = entered s" "quiet s1 (entered s)"
    using entered_facts [of ?e0 s] st by simp_all
  have "cursor_ok s1" using ok sf by (simp add: cursor_ok_def)
  then have cc: "conn_cursor s1 = (None, entered s)"
    using conn_cursor_ok [of s1] en by (cases "conn_cursor s1") simp
  obtain sc fc s3 where t: "trials 10 (0, 0) (entered s) = ((sc, fc), s3)"
    by (cases "trials 10 (0, 0) (entered s)") auto
  have "quiet s1 s3" using quiet_trans [OF en(2) quiet_trials [of "entered s" 10 "(0, 0)"]] t by simp
  then have "experiments s3 = experiments s" using sf by (simp add: quiet_def)
  moreover have "observations e1 = []" using sf by (simp add: ChaosExperiment_init_def)
  ultimately show ?thesis
    by (simp add: inject_random_failures_def random_body_def st cc t finish_def set_end_time_def
          now_def emit_def set_result_def append_observation_def)
qed

lemma random_raise:
  assumes "\<not> cursor_ok s"
  shows "\<exists>x. fst (inject_random_failures s) = Inl x"
  using random_raises [OF assms]
  by (auto simp: raises_unrecorded_def split: prod.splits sum.splits)

text \<open>
  C5. Every trial adds one to exactly one of the two counters, whatever the draw and
  whatever the driver answers: in the branch of the intentional error the increment
  after \<^verbatim>\<open>execute\<close> and the increment of the handler exclude each other. So the
  counts that the injector reports after its ten trials add up to 10.
\<close>

theorem random_counts_total:
  "(fst (trial (sc, fc) s) = (Suc sc, fc) \<or> fst (trial (sc, fc) s) = (sc, Suc fc)) \<and>
   (cursor_ok s \<longrightarrow>
      (case fst (inject_random_failures s) of
         Inr e \<Rightarrow>
           (case counts_of e of
              Some (success_count, failure_count) \<Rightarrow> success_count + failure_count = 10
            | None \<Rightarrow> False)
       | Inl x \<Rightarrow> False))"
proof -
  have "cursor_ok s \<Longrightarrow> ?thesis"
  proof -
    assume ok: "cursor_ok s"
    from random_run [OF ok] obtain e s' where
      "inject_random_failures s = (Inr e, s')"
      "observations e = [Counts (fst (fst (trials 10 (0, 0) (entered s))))
                                (snd (fst (trials 10 (0, 0) (entered s))))]"
      by blast
    then show ?thesis
      using trials_sum [of 10 "(0, 0)" "entered s"] trial_counts [of sc fc s]
      by (simp add: counts_of_def case_prod_beta)
  qed
  then show ?thesis using trial_counts [of sc fc s] by blast
qed

theorem random_counts_total_witness:
  "fst (trial (2, 3) env_healthy) = (2, 4) \<and>
   cursor_ok env_healthy \<and>
   map_sum id counts_of (fst (inject_random_failures env_healthy)) = Inr (Some (5, 5))"
proof -
  have a: "fst (trial (2, 3) env_healthy) = (2, 4)" by code_simp
  have b: "cursor_ok env_healthy" by code_simp
  have c: "map_sum id counts_of (fst (inject_random_failures env_healthy)) = Inr (Some (5, 5))"
    by code_simp
  show ?thesis using random_counts_total [of 2 3 env_healthy] a b c by simp
qed

text \<open>
  C10. Whenever the random failure injector returns, the result of its experiment is
  \<open>completed\<close>, whatever the draws and whatever the driver answers to the trials, also
  when all ten trials fail; the experiment is appended to the registry, so the number
  of completed experiments grows by one. It returns whenever the cursor is acquired.
\<close>

theorem random_failures_completed:
  "(case inject_random_failures s of
      (Inr e, s') \<Rightarrow>
        result e = Some ''completed'' \<and> experiments s' = experiments s @ [e] \<and>
        length (completed (experiments s')) = Suc (length (completed (experiments s)))
    | (Inl x, s') \<Rightarrow> \<not> cursor_ok s)"
proof (cases "cursor_ok s")
  case True
  from random_run [OF True] show ?thesis by (auto simp: completed_def)
next
  case False
  with random_raise [OF False] show ?thesis by (auto split: prod.splits)
qed

theorem random_failures_completed_witness:
  "cursor_ok env_all_injected \<and>
   map_sum id (\<lambda>e. (result e, counts_of e)) (fst (inject_random_failures env_all_injected)) =
     Inr (Some ''completed'', Some (0, 10)) \<and>
   length (completed (experiments (snd (inject_random_failures env_all_injected)))) = 1"
proof -
  have a: "cursor_ok env_all_injected" by code_simp
  have b: "map_sum id (\<lambda>e. (result e, counts_of e))
             (fst (inject_random_failures env_all_injected)) =
           Inr (Some ''completed'', Some (0, 10))"
    by code_simp
  have c: "experiments env_all_injected = []" by code_simp
  show ?thesis
    using random_failures_completed [of env_all_injected] a b c
    by (auto simp: completed_def split: prod.splits sum.splits)
qed

lemma same_answers_driver_call:
  "same_answers s t \<Longrightarrow>
     fst (driver_call q s) = fst (driver_call q t) \<and>
     same_answers (snd (driver_call q s)) (snd (driver_call q t))"
  by (simp add: same_answers_def driver_call_def emit_def)

lemma same_answers_execute_fetch:
  assumes "same_answers s t"
  shows "fst (execute_fetch q s) = fst (execute_fetch q t) \<and>
         same_answers (snd (execute_fetch q s)) (snd (execute_fetch q t))"
proof -
  obtain r s1 where a: "driver_call q s = (r, s1)" by (cases "driver_call q s")
  obtain r' t1 where b: "driver_call q t = (r', t1)" by (cases "driver_call q t")
  have c: "r = r'" "same_answers s1 t1"
    using same_answers_driver_call [OF assms, of q] a b by simp_all
  show ?thesis
    using same_answers_driver_call [OF c(2), of "''fetch''"] c(1)
    by (cases r') (simp_all add: execute_fetch_def cursor_execute_def cursor_fetch_def a b c)
qed

lemma same_answers_random:
  "same_answers s t \<Longrightarrow>
     fst (random s) = fst (random t) \<and> same_answers (snd (random s)) (snd (random t))"
  by (simp add: same_answers_def random_def)

lemma same_answers_trial:
  assumes "same_answers s t"
  shows "fst (trial c s) = fst (trial c t) \<and> same_answers (snd (trial c s)) (snd (trial c t))"
proof -
  obtain sc fc where c: "c = (sc, fc)" by (cases c)
  obtain r s1 where a: "random s = (r, s1)" by (cases "random s")
  obtain r' t1 where b: "random t = (r', t1)" by (cases "random t")
  have d: "r = r'" "same_answers s1 t1"
    using same_answers_random [OF assms] a b by simp_all
  show ?thesis
  proof (cases "r' < 3 / 10")
    case True
    then show ?thesis
      using same_answers_driver_call [OF d(2), of "''SELECT 1/0''"]
      by (auto simp: trial_def c a b d(1) cursor_execute_def split: prod.splits option.splits)
  next
    case False
    then show ?thesis
      using same_answers_execute_fetch [OF d(2), of "''SELECT 1''"]
      by (auto simp: trial_def c a b d(1) split: prod.splits option.splits)
  qed
qed

lemma same_answers_trials:
  "same_answers s t \<Longrightarrow> fst (trials n c s) = fst (trials n c t)"
proof (induction n arbitrary: c s t)
  case 0
  show ?case by simp
next
  case (Suc n)
  obtain c1 s1 where a: "trial c s = (c1, s1)" by (cases "trial c s")
  obtain c2 t1 where b: "trial c t = (c2, t1)" by (cases "trial c t")
  have "c1 = c2" "same_answers s1 t1"
    using same_answers_trial [OF Suc.prems, of c] a b by simp_all
  then show ?case using Suc.IH [of s1 t1 c2] by (simp add: a b)
qed

lemma same_answers_entered:
  "same_answers s t \<Longrightarrow> conn s \<noteq> None \<Longrightarrow> conn t \<noteq> None \<Longrightarrow>
     same_answers (entered s) (entered t)"
  using entered_facts [of "ChaosExperiment_init [] [] []" s]
    entered_facts [of "ChaosExperiment_init [] [] []" t]
  by (simp add: same_answers_def)

lemma random_counts:
  "cursor_ok s \<Longrightarrow>
     map_sum id counts_of (fst (inject_random_failures s)) =
       Inr (Some (fst (trials 10 (0, 0) (entered s))))"
  using random_run [of s] by (auto simp: counts_of_def)

lemma injected_le: "injected r d n \<le> n"
proof (induction n arbitrary: d)
  case 0
  show ?case by simp
next
  case (Suc n)
  from Suc [of "Suc d"] show ?case by simp
qed

lemma trial_healthy:
  assumes "\<forall>n. driver s n = None"
  shows "fst (trial (sc, fc) s) =
           (if rnd s (draws s) < 3 / 10 then (sc, Suc fc) else (Suc sc, fc)) \<and>
         rnd (snd (trial (sc, fc) s)) = rnd s \<and> driver (snd (trial (sc, fc) s)) = driver s \<and>
         draws (snd (trial (sc, fc) s)) = Suc (draws s)"
  using assms
  by (simp add: trial_def random_def cursor_execute_def execute_fetch_def cursor_fetch_def
        driver_call_def emit_def)

lemma trials_healthy:
  "\<forall>n. driver s n = None \<Longrightarrow>
     fst (trials n (sc, fc) s) =
       (sc + (n - injected (rnd s) (draws s) n), fc + injected (rnd s) (draws s) n)"
proof (induction n arbitrary: sc fc s)
  case 0
  show ?case by simp
next
  case (Suc n)
  obtain c1 s1 where a: "trial (sc, fc) s = (c1, s1)" by (cases "trial (sc, fc) s")
  note th = trial_healthy [OF Suc.prems, of sc fc]
  have s1: "rnd s1 = rnd s" "driver s1 = driver s" "draws s1 = Suc (draws s)"
    using th a by simp_all
  then have h: "\<forall>n. driver s1 n = None" using Suc.prems by simp
  have le: "injected (rnd s) (Suc (draws s)) n \<le> n" by (rule injected_le)
  show ?case
  proof (cases "rnd s (draws s) < 3 / 10")
    case True
    then have "c1 = (sc, Suc fc)" using th a by simp
    then show ?thesis using Suc.IH [OF h, of sc "Suc fc"] True le by (simp add: a s1)
  next
    case False
    then have "c1 = (Suc sc, fc)" using th a by simp
    then show ?thesis using Suc.IH [OF h, of "Suc sc" fc] False le by (simp add: a s1)
  qed
qed

text \<open>
  C9, as amended. Two runs of the random failure injector that start with the same
  state of the random generator, and in which the target answers the driver calls
  alike, report the same counts, whatever the clock, the registry, the baseline and the
  open sessions are. When the target answers every call, the counts are a function of
  the generator alone: the failures are the draws below 0.3 among the next ten.
\<close>

theorem random_counts_reproducible:
  "(same_answers s t \<and> cursor_ok s \<and> conn t \<noteq> None \<longrightarrow>
      map_sum id counts_of (fst (inject_random_failures s)) =
        map_sum id counts_of (fst (inject_random_failures t)) \<and>
      (\<exists>c. map_sum id counts_of (fst (inject_random_failures s)) = Inr (Some c))) \<and>
   ((\<forall>n. driver s n = None) \<and> conn s \<noteq> None \<longrightarrow>
      map_sum id counts_of (fst (inject_random_failures s)) =
        Inr (Some (10 - injected (rnd s) (draws s) 10, injected (rnd s) (draws s) 10)))"
proof -
  have "map_sum id counts_of (fst (inject_random_failures s)) =
          map_sum id counts_of (fst (inject_random_failures t)) \<and>
        (\<exists>c. map_sum id counts_of (fst (inject_random_failures s)) = Inr (Some c))"
    if a: "same_answers s t" and ok: "cursor_ok s" and ct: "conn t \<noteq> None"
  proof -
    have okt: "cursor_ok t" using a ok ct by (simp add: same_answers_def cursor_ok_def)
    have "conn s \<noteq> None" using ok by (simp add: cursor_ok_def)
    then have "fst (trials 10 (0, 0) (entered s)) = fst (trials 10 (0, 0) (entered t))"
      using same_answers_trials [OF same_answers_entered [OF a _ ct]] by simp
    then show ?thesis using random_counts [OF ok] random_counts [OF okt] by simp
  qed
  moreover have "map_sum id counts_of (fst (inject_random_failures s)) =
        Inr (Some (10 - injected (rnd s) (draws s) 10, injected (rnd s) (draws s) 10))"
    if h: "\<forall>n. driver s n = None" and c: "conn s \<noteq> None"
  proof -
    have ok: "cursor_ok s" using h c by (simp add: cursor_ok_def)
    have e: "rnd (entered s) = rnd s" "draws (entered s) = draws s"
      "\<forall>n. driver (entered s) n = None"
      using entered_facts [of "ChaosExperiment_init [] [] []" s] h by simp_all
    show ?thesis
      using random_counts [OF ok] trials_healthy [OF e(3), of 10 0 0] e(1,2) by simp
  qed
  ultimately show ?thesis by blast
qed

theorem random_counts_reproducible_witness:
  "same_answers env_healthy (env_clock_back\<lparr>experiments := [sample_experiment ''failed'']\<rparr>) \<and>
   cursor_ok env_healthy \<and>
   conn (env_clock_back\<lparr>experiments := [sample_experiment ''failed'']\<rparr>) \<noteq> None \<and>
   (\<forall>n. driver env_healthy n = None) \<and>
   map_sum id counts_of
     (fst (inject_random_failures
             (env_clock_back\<lparr>experiments := [sample_experiment ''failed'']\<rparr>))) =
     Inr (Some (5, 5)) \<and>
   injected (rnd env_healthy) (draws env_healthy) 10 = 5"
proof -
  let ?t = "env_clock_back\<lparr>experiments := [sample_experiment ''failed'']\<rparr>"
  have a: "same_answers env_healthy ?t"
    by (simp add: same_answers_def env_clock_back_def)
  have b: "cursor_ok env_healthy" by code_simp
  have c: "conn ?t \<noteq> None" by (simp add: env_clock_back_def env_healthy_def)
  have d: "\<forall>n. driver env_healthy n = None" by (simp add: env_healthy_def)
  have e: "injected (rnd env_healthy) (draws env_healthy) 10 = 5" by code_simp
  have f: "conn env_healthy \<noteq> None" by (simp add: env_healthy_def)
  show ?thesis
    using random_counts_reproducible [of env_healthy ?t] a b c d e f by auto
qed

theorem random_counts_reproducible_counterexample:
  "rnd env_flaky = rnd env_healthy \<and> draws env_flaky = draws env_healthy \<and>
   map_sum id counts_of (fst (inject_random_failures env_healthy)) = Inr (Some (5, 5)) \<and>
   map_sum id counts_of (fst (inject_random_failures env_flaky)) = Inr (Some (0, 10))"
proof -
  have "map_sum id counts_of (fst (inject_random_failures env_healthy)) = Inr (Some (5, 5))"
    by code_simp
  moreover have "map_sum id counts_of (fst (inject_random_failures env_flaky)) = Inr (Some (0, 10))"
    by code_simp
  ultimately show ?thesis by (simp add: env_flaky_def)
qed

subsection \<open>Degradation recorded by the slow query injector\<close>

lemma slow_body_absent:
  assumes "baseline_metrics s ''query_latency_ms'' = None"
  shows "result (fst (slow_body (e, s))) = Some ''failed'' \<and>
         is_error (last (observations (fst (slow_body (e, s)))))"
proof -
  obtain r2 s2 where a: "execute_fetch ''SELECT pg_sleep(2)'' s = (r2, s2)"
    by (cases "execute_fetch ''SELECT pg_sleep(2)'' s")
  have q2: "quiet s s2" using quiet_execute_fetch [of s "''SELECT pg_sleep(2)''"] a by simp
  show ?thesis
  proof (cases r2)
    case (Some x)
    then show ?thesis
      by (simp add: slow_body_def a record_failure_def set_result_def append_observation_def)
  next
    case None
    obtain start s3 where n1: "now s2 = (start, s3)" by (cases "now s2")
    have q3: "quiet s s3" using quiet_trans [OF q2 quiet_now] n1 by simp
    obtain r4 s4 where b: "execute_fetch ''SELECT COUNT(*) FROM test_data'' s3 = (r4, s4)"
      by (cases "execute_fetch ''SELECT COUNT(*) FROM test_data'' s3")
    have q4: "quiet s s4"
      using quiet_trans [OF q3 quiet_execute_fetch [of s3 "''SELECT COUNT(*) FROM test_data''"]] b
      by simp
    show ?thesis
    proof (cases r4)
      case (Some x)
      then show ?thesis
        using None
        by (simp add: slow_body_def a n1 b record_failure_def set_result_def
              append_observation_def)
    next
      case r4: None
      obtain stop s5 where n2: "now s4 = (stop, s5)" by (cases "now s4")
      have "quiet s s5" using quiet_trans [OF q4 quiet_now] n2 by simp
      then have "baseline_metrics s5 ''query_latency_ms'' = None"
        using assms by (simp add: quiet_def)
      then show ?thesis
        using None r4
        by (simp add: slow_body_def a n1 b n2 Let_def record_failure_def set_result_def
              append_observation_def)
    qed
  qed
qed

lemma slow_absent:
  assumes "baseline_metrics s ''query_latency_ms'' = None"
  shows "case fst (inject_slow_queries s) of
           Inr e \<Rightarrow> result e = Some ''failed'' \<and> is_error (last (observations e))
         | Inl x \<Rightarrow> \<not> cursor_ok s"
proof (cases "cursor_ok s")
  case False
  then show ?thesis
    using slow_raises [OF False]
    by (auto simp: raises_unrecorded_def split: prod.splits sum.splits)
next
  case True
  let ?e0 = "ChaosExperiment_init ''Slow Query Injection''
               ''Simulate database performance degradation'' ''query_performance''"
  obtain e1 s1 where st: "set_start_time (?e0, s) = (e1, s1)"
    by (cases "set_start_time (?e0, s)")
  note sf = start_facts [OF st]
  obtain r s2 where cc: "conn_cursor s1 = (r, s2)" by (cases "conn_cursor s1")
  have "cursor_ok s1" using True sf by (simp add: cursor_ok_def)
  then have r: "r = None" using conn_cursor_ok [of s1] cc by simp
  have "quiet s1 s2" using quiet_conn_cursor [of s1] cc by simp
  then have "baseline_metrics s2 ''query_latency_ms'' = None"
    using assms sf by (simp add: quiet_def)
  from slow_body_absent [OF this, of e1] show ?thesis
    by (cases "slow_body (e1, s2)")
       (simp add: inject_slow_queries_def st cc r finish_def set_end_time_def now_def)
qed

lemma slow_measured:
  assumes c: "conn s \<noteq> None" and a: "answers 5 s"
  shows "case fst (inject_slow_queries s) of
           Inr e \<Rightarrow>
             (case baseline_metrics s ''query_latency_ms'' of
                None \<Rightarrow>
                  result e = Some ''failed'' \<and>
                  observations e =
                    [Latency_during (slow_latency s), Error (str (KeyError ''query_latency_ms''))]
              | Some b \<Rightarrow>
                  if b = 0 then
                    result e = Some ''failed'' \<and>
                    observations e =
                      [Latency_during (slow_latency s), Baseline_latency b,
                       Error ''float division by zero'']
                  else
                    result e = Some ''completed'' \<and>
                    observations e =
                      [Latency_during (slow_latency s), Baseline_latency b,
                       Degradation ((slow_latency s - b) / b * 100)])
         | Inl x \<Rightarrow> False"
proof -
  from a have d: "driver s (calls s) = None" "driver s (Suc (calls s)) = None"
    "driver s (Suc (Suc (calls s))) = None" "driver s (Suc (Suc (Suc (calls s)))) = None"
    "driver s (Suc (Suc (Suc (Suc (calls s))))) = None"
    using a [unfolded answers_def, rule_format, of 0] a [unfolded answers_def, rule_format, of 1]
      a [unfolded answers_def, rule_format, of 2] a [unfolded answers_def, rule_format, of 3]
      a [unfolded answers_def, rule_format, of 4]
    by (simp_all add: eval_nat_numeral)
  from c obtain h where h: "conn s = Some h" by auto
  show ?thesis
    using d h
    by (simp add: inject_slow_queries_def slow_body_def slow_latency_def prims eval_nat_numeral
          split: option.splits)
qed

text \<open>
  C8. When the cursor is acquired, both queries are answered and the baseline holds a
  latency \<open>b\<close> other than zero, the slow query injector completes and records the
  latency it measured, the baseline latency and the degradation
  \<open>(latency - b) / b * 100\<close>; a baseline of 5 ms and a measured latency of 500 ms give
  9900. When the baseline is absent the injector fails: either the exception of the
  cursor leaves it, or its experiment ends \<open>failed\<close> with the error as its last
  observation, which names the missing key when the queries were answered.
\<close>

theorem slow_query_degradation:
  "(conn s \<noteq> None \<and> answers 5 s \<and> baseline_metrics s ''query_latency_ms'' = Some b \<and> b \<noteq> 0 \<longrightarrow>
      (case fst (inject_slow_queries s) of
         Inr e \<Rightarrow>
           result e = Some ''completed'' \<and>
           observations e =
             [Latency_during (slow_latency s), Baseline_latency b,
              Degradation ((slow_latency s - b) / b * 100)] \<and>
           (b = 5 \<and> slow_latency s = 500 \<longrightarrow> Degradation 9900 \<in> set (observations e))
       | Inl x \<Rightarrow> False)) \<and>
   (baseline_metrics s ''query_latency_ms'' = None \<longrightarrow>
      (case fst (inject_slow_queries s) of
         Inr e \<Rightarrow>
           result e = Some ''failed'' \<and> is_error (last (observations e)) \<and>
           (conn s \<noteq> None \<and> answers 5 s \<longrightarrow>
              observations e =
                [Latency_during (slow_latency s), Error (str (KeyError ''query_latency_ms''))])
       | Inl x \<Rightarrow> \<not> cursor_ok s))"
proof -
  have "case fst (inject_slow_queries s) of
         Inr e \<Rightarrow>
           result e = Some ''completed'' \<and>
           observations e =
             [Latency_during (slow_latency s), Baseline_latency b,
              Degradation ((slow_latency s - b) / b * 100)] \<and>
           (b = 5 \<and> slow_latency s = 500 \<longrightarrow> Degradation 9900 \<in> set (observations e))
       | Inl x \<Rightarrow> False"
    if "conn s \<noteq> None" "answers 5 s" "baseline_metrics s ''query_latency_ms'' = Some b" "b \<noteq> 0"
    using slow_measured [OF that(1,2)] that(3,4) by (auto split: sum.splits)
  moreover have "case fst (inject_slow_queries s) of
         Inr e \<Rightarrow>
           result e = Some ''failed'' \<and> is_error (last (observations e)) \<and>
           (conn s \<noteq> None \<and> answers 5 s \<longrightarrow>
              observations e =
                [Latency_during (slow_latency s), Error (str (KeyError ''query_latency_ms''))])
       | Inl x \<Rightarrow> \<not> cursor_ok s"
    if n: "baseline_metrics s ''query_latency_ms'' = None"
  proof (cases "conn s \<noteq> None \<and> answers 5 s")
    case True
    then show ?thesis
      using slow_measured [of s] slow_absent [OF n] n by (auto split: sum.splits)
  next
    case False
    then show ?thesis using slow_absent [OF n] by (auto split: sum.splits)
  qed
  ultimately show ?thesis by blast
qed

theorem slow_query_degradation_witness:
  "conn env_healthy \<noteq> None \<and> answers 5 env_healthy \<and>
   baseline_metrics env_healthy ''query_latency_ms'' = Some 5 \<and> slow_latency env_healthy = 500 \<and>
   map_sum id (\<lambda>e. (result e, observations e)) (fst (inject_slow_queries env_healthy)) =
     Inr (Some ''completed'', [Latency_during 500, Baseline_latency 5, Degradation 9900]) \<and>
   baseline_metrics env_no_baseline ''query_latency_ms'' = None \<and>
   map_sum id (\<lambda>e. (result e, observations e)) (fst (inject_slow_queries env_no_baseline)) =
     Inr (Some ''failed'',
          [Latency_during 500, Error ([CHR 0x27] @ ''query_latency_ms'' @ [CHR 0x27])])"
proof -
  have a: "conn env_healthy \<noteq> None" "answers 5 env_healthy"
    "baseline_metrics env_healthy ''query_latency_ms'' = Some 5"
    "slow_latency env_healthy = 500"
    by (simp_all add: env_healthy_def answers_def slow_latency_def)
  have b: "conn env_no_baseline \<noteq> None" "answers 5 env_no_baseline"
    "baseline_metrics env_no_baseline ''query_latency_ms'' = None"
    "slow_latency env_no_baseline = 500"
    by (simp_all add: env_no_baseline_def env_healthy_def answers_def slow_latency_def)
  have c: "cursor_ok env_no_baseline"
    by (simp add: cursor_ok_def env_no_baseline_def env_healthy_def)
  show ?thesis
    using slow_query_degradation [of env_healthy 5] slow_query_degradation [of env_no_baseline 5]
      a b c
    by (auto split: sum.splits)
qed

subsection \<open>The recovery prober\<close>

lemma probe_loop_bound: "a \<le> m \<Longrightarrow> fst (probe_loop a m s) \<le> m"
proof (induction a m s rule: probe_loop.induct)
  case (1 attempts max_attempts s)
  show ?case
  proof (cases "attempts < max_attempts")
    case False
    with "1.prems" show ?thesis by simp
  next
    case True
    obtain r s1 where e: "execute_fetch ''SELECT 1'' s = (r, s1)"
      by (cases "execute_fetch ''SELECT 1'' s")
    show ?thesis
    proof (cases r)
      case None
      with True e show ?thesis by simp
    next
      case (Some x)
      with "1.IH" [OF True e [symmetric] Some] True e show ?thesis by simp
    qed
  qed
qed

lemma probe_loop_stops:
  "fst (probe_loop a m s) < m \<Longrightarrow>
     \<exists>s0. fst (execute_fetch ''SELECT 1'' s0) = None \<and>
          snd (probe_loop a m s) = snd (execute_fetch ''SELECT 1'' s0)"
proof (induction a m s rule: probe_loop.induct)
  case (1 attempts max_attempts s)
  show ?case
  proof (cases "attempts < max_attempts")
    case False
    with "1.prems" show ?thesis by simp
  next
    case True
    obtain r s1 where e: "execute_fetch ''SELECT 1'' s = (r, s1)"
      by (cases "execute_fetch ''SELECT 1'' s")
    show ?thesis
    proof (cases r)
      case None
      have "fst (execute_fetch ''SELECT 1'' s) = None \<and>
            snd (probe_loop attempts max_attempts s) = snd (execute_fetch ''SELECT 1'' s)"
        using True e None by simp
      then show ?thesis by blast
    next
      case (Some x)
      have "fst (probe_loop (attempts + 1) max_attempts s1) < max_attempts"
        using "1.prems" True e Some by simp
      from "1.IH" [OF True e [symmetric] Some this] show ?thesis
        using True e Some by simp
    qed
  qed
qed

lemma probe_loop_first:
  "a < m \<Longrightarrow> fst (execute_fetch ''SELECT 1'' s) = None \<Longrightarrow>
     probe_loop a m s = (a, snd (execute_fetch ''SELECT 1'' s))"
  by (cases "execute_fetch ''SELECT 1'' s") simp

lemma probe_loop_fails:
  "\<forall>i<m - a. driver s (calls s + i) \<noteq> None \<Longrightarrow> a \<le> m \<Longrightarrow>
     fst (probe_loop a m s) = m \<and> clock (snd (probe_loop a m s)) = clock s \<and>
     ticks (snd (probe_loop a m s)) = ticks s \<and>
     trace (snd (probe_loop a m s)) = trace s @ replicate (m - a) (Driver_call ''SELECT 1'')"
proof (induction a m s rule: probe_loop.induct)
  case (1 attempts max_attempts s)
  show ?case
  proof (cases "attempts < max_attempts")
    case False
    with "1.prems" show ?thesis by simp
  next
    case True
    then have "0 < max_attempts - attempts" by simp
    with "1.prems" (1) have "driver s (calls s + 0) \<noteq> None" by blast
    then obtain msg where d: "driver s (calls s) = Some msg" by auto
    let ?s1 = "emit (Driver_call ''SELECT 1'') (s\<lparr>calls := Suc (calls s)\<rparr>)"
    have e: "execute_fetch ''SELECT 1'' s = (Some (DriverError msg), ?s1)"
      by (simp add: execute_fetch_def cursor_execute_def driver_call_def d)
    have "\<forall>i<max_attempts - (attempts + 1). driver ?s1 (calls ?s1 + i) \<noteq> None"
    proof (intro allI impI)
      fix i
      assume "i < max_attempts - (attempts + 1)"
      then have "Suc i < max_attempts - attempts" by simp
      with "1.prems" (1) have "driver s (calls s + Suc i) \<noteq> None" by blast
      then show "driver ?s1 (calls ?s1 + i) \<noteq> None" by (simp add: emit_def)
    qed
    from "1.IH" [OF True e [symmetric] refl this] True
    have "fst (probe_loop (attempts + 1) max_attempts ?s1) = max_attempts \<and>
          clock (snd (probe_loop (attempts + 1) max_attempts ?s1)) = clock ?s1 \<and>
          ticks (snd (probe_loop (attempts + 1) max_attempts ?s1)) = ticks ?s1 \<and>
          trace (snd (probe_loop (attempts + 1) max_attempts ?s1)) =
            trace ?s1 @ replicate (max_attempts - (attempts + 1)) (Driver_call ''SELECT 1'')"
      by simp
    moreover have "max_attempts - attempts = Suc (max_attempts - (attempts + 1))"
      using True by simp
    ultimately show ?thesis
      using True e by (simp add: emit_def del: probe_loop.simps add: probe_loop.simps [of attempts])
  qed
qed

lemma recovery_cursor_raises:
  "\<not> cursor_ok s \<Longrightarrow> \<exists>x. fst (test_recovery_time s) = Inl x"
  using conn_cursor_fail [of s]
  by (cases "conn_cursor s") (auto simp: test_recovery_time_def)

lemma recovery_returns:
  assumes ok: "cursor_ok s"
  shows "\<exists>rt attempts s'. test_recovery_time s = (Inr rt, s') \<and> attempts \<le> 10 \<and>
           last (trace s') = Log_recovery rt attempts"
proof -
  obtain s1 where cc: "conn_cursor s = (None, s1)"
    using conn_cursor_ok [OF ok] by (cases "conn_cursor s") simp
  obtain t0 s2 where n1: "now s1 = (t0, s2)" by (cases "now s1")
  obtain attempts s3 where p: "probe_loop 0 10 s2 = (attempts, s3)"
    by (cases "probe_loop 0 10 s2")
  obtain t1 s4 where n2: "now s3 = (t1, s4)" by (cases "now s3")
  have "attempts \<le> 10" using probe_loop_bound [of 0 10 s2] p by simp
  then show ?thesis
    using cc n1 p n2
    by (simp add: test_recovery_time_def emit_def Let_def del: probe_loop.simps)
qed

lemma recovery_all_fail:
  assumes ok: "cursor_ok s" and pf: "probes_fail s"
  shows "fst (test_recovery_time s) = Inr ((clock s (Suc (ticks s)) - clock s (ticks s)) * 1000) \<and>
         new_events s (snd (test_recovery_time s)) =
           Driver_call ''cursor'' # replicate 10 (Driver_call ''SELECT 1'') @
           [Log_recovery ((clock s (Suc (ticks s)) - clock s (ticks s)) * 1000) 10]"
proof -
  let ?s1 = "emit (Driver_call ''cursor'') (s\<lparr>calls := Suc (calls s)\<rparr>)"
  let ?s2 = "?s1\<lparr>ticks := Suc (ticks s)\<rparr>"
  have cc: "conn_cursor s = (None, ?s1)"
    using ok by (auto simp: cursor_ok_def conn_cursor_def driver_call_def)
  have n1: "now ?s1 = (clock s (ticks s), ?s2)" by (simp add: now_def emit_def)
  have "\<forall>i<10 - 0. driver ?s2 (calls ?s2 + i) \<noteq> None"
    using pf by (simp add: probes_fail_def emit_def)
  from probe_loop_fails [OF this]
  have pl: "fst (probe_loop 0 10 ?s2) = 10" "clock (snd (probe_loop 0 10 ?s2)) = clock s"
    "ticks (snd (probe_loop 0 10 ?s2)) = Suc (ticks s)"
    "trace (snd (probe_loop 0 10 ?s2)) =
       trace s @ Driver_call ''cursor'' # replicate 10 (Driver_call ''SELECT 1'')"
    by (simp_all add: emit_def del: probe_loop.simps)
  obtain s3 where p: "probe_loop 0 10 ?s2 = (10, s3)"
    using pl(1) by (cases "probe_loop 0 10 ?s2") simp
  show ?thesis
    using pl(2-) p
    by (simp add: test_recovery_time_def cc n1 now_def emit_def new_events_def Let_def
          del: probe_loop.simps)
qed

text \<open>
  C7, as amended. While the cursor of the prober can be acquired, the prober raises no
  exception and returns the elapsed time in milliseconds, and only that: the number of
  attempts is written to the log. When the liveness query then fails on each of ten
  attempts, the logged number is 10. When acquiring the cursor raises, the exception
  leaves the prober. The loop never counts beyond \<open>max_attempts\<close>, returns at once on
  a probe that succeeds, and returns with fewer attempts than \<open>max_attempts\<close> only
  after a probe that succeeded.
\<close>

theorem recovery_probe:
  "(cursor_ok s \<and> probes_fail s \<longrightarrow>
      fst (test_recovery_time s) =
        Inr ((clock s (Suc (ticks s)) - clock s (ticks s)) * 1000) \<and>
      new_events s (snd (test_recovery_time s)) =
        Driver_call ''cursor'' # replicate 10 (Driver_call ''SELECT 1'') @
        [Log_recovery ((clock s (Suc (ticks s)) - clock s (ticks s)) * 1000) 10]) \<and>
   (cursor_ok s \<longrightarrow>
      (\<exists>rt attempts s'. test_recovery_time s = (Inr rt, s') \<and> attempts \<le> 10 \<and>
         last (trace s') = Log_recovery rt attempts)) \<and>
   (\<not> cursor_ok s \<longrightarrow> (\<exists>x. fst (test_recovery_time s) = Inl x)) \<and>
   (a \<le> m \<longrightarrow> fst (probe_loop a m s) \<le> m) \<and>
   (a < m \<and> fst (execute_fetch ''SELECT 1'' s) = None \<longrightarrow>
      probe_loop a m s = (a, snd (execute_fetch ''SELECT 1'' s))) \<and>
   (fst (probe_loop a m s) < m \<longrightarrow>
      (\<exists>s0. fst (execute_fetch ''SELECT 1'' s0) = None \<and>
            snd (probe_loop a m s) = snd (execute_fetch ''SELECT 1'' s0)))"
  using recovery_all_fail [of s] recovery_returns [of s] recovery_cursor_raises [of s]
    probe_loop_bound [of a m s] probe_loop_first [of a m s] probe_loop_stops [of a m s]
  by blast

theorem recovery_probe_witness:
  "cursor_ok env_flaky \<and> probes_fail env_flaky \<and>
   fst (test_recovery_time env_flaky) = Inr 500 \<and>
   last (trace (snd (test_recovery_time env_flaky))) = Log_recovery 500 10 \<and>
   \<not> cursor_ok env_closed \<and>
   (0::nat) < 10 \<and> fst (execute_fetch ''SELECT 1'' env_healthy) = None \<and>
   fst (probe_loop 0 10 env_healthy) = 0"
proof -
  have a: "cursor_ok env_flaky" "probes_fail env_flaky"
    by (simp_all add: cursor_ok_def probes_fail_def env_flaky_def env_healthy_def)
  have b: "\<not> cursor_ok env_closed"
    by (simp add: cursor_ok_def env_closed_def env_healthy_def)
  have c: "fst (execute_fetch ''SELECT 1'' env_healthy) = None" by code_simp
  have d: "clock env_flaky (Suc (ticks env_flaky)) = 1 / 2" "clock env_flaky (ticks env_flaky) = 0"
    "trace env_flaky = []"
    by (simp_all add: env_flaky_def env_healthy_def)
  show ?thesis
    using recovery_probe [of env_flaky 0 10] recovery_probe [of env_healthy 0 10] a b c d
    by (auto simp: new_events_def simp del: probe_loop.simps)
qed

theorem recovery_probe_counterexample:
  "fst (test_recovery_time env_flaky) = Inr 500 \<and>
   last (trace (snd (test_recovery_time env_flaky))) = Log_recovery 500 10 \<and>
   fst (test_recovery_time env_closed) = Inl (DriverError ''connection already closed'')"
  by code_simp

subsection \<open>A suite whose first connection fails\<close>

text \<open>
  C6, as amended. When the first connection to the target fails, the suite prints its
  banner, logs the connection error and returns to its caller without raising: no
  experiment is run or recorded and no part of a report is printed. The script then
  ends normally, with exit status 0.
\<close>

theorem connect_failure:
  "driver s (calls s) = Some m \<longrightarrow>
     fst (run_chaos_suite s) = None \<and>
     experiments (snd (run_chaos_suite s)) = experiments s \<and>
     new_events s (snd (run_chaos_suite s)) =
       [Print_banner, Driver_call ''connect'', Log_error (''Connection failed: '' @ m)] \<and>
     fst (main s) = 0 \<and> experiments (snd (main s)) = [] \<and>
     new_events s (snd (main s)) =
       [Print_banner, Driver_call ''connect'', Log_error (''Connection failed: '' @ m)]"
proof
  assume d: "driver s (calls s) = Some m"
  have c: "connect (emit Print_banner t) =
             (False, emit (Log_error (''Connection failed: '' @ m))
                       (emit (Driver_call ''connect'') (emit Print_banner t\<lparr>calls := Suc (calls t)\<rparr>)))"
    if "driver t = driver s" "calls t = calls s" for t
    using d that by (simp add: connect_def psycopg2_connect_def driver_call_def emit_def)
  have r: "fst (run_chaos_suite t) = None \<and> experiments (snd (run_chaos_suite t)) = experiments t \<and>
           new_events t (snd (run_chaos_suite t)) =
             [Print_banner, Driver_call ''connect'', Log_error (''Connection failed: '' @ m)]"
    if "driver t = driver s" "calls t = calls s" for t
  proof -
    have "run_chaos_suite t =
            (None, emit (Log_error (''Connection failed: '' @ m))
                     (emit (Driver_call ''connect'')
                        (emit Print_banner t\<lparr>calls := Suc (calls t)\<rparr>)))"
      by (simp add: run_chaos_suite_def c [OF that])
    then show ?thesis by (simp add: emit_def new_events_def)
  qed
  from r [of s] r [of "ChaosFramework_init s"]
  show "fst (run_chaos_suite s) = None \<and>
     experiments (snd (run_chaos_suite s)) = experiments s \<and>
     new_events s (snd (run_chaos_suite s)) =
       [Print_banner, Driver_call ''connect'', Log_error (''Connection failed: '' @ m)] \<and>
     fst (main s) = 0 \<and> experiments (snd (main s)) = [] \<and>
     new_events s (snd (main s)) =
       [Print_banner, Driver_call ''connect'', Log_error (''Connection failed: '' @ m)]"
    by (cases "run_chaos_suite (ChaosFramework_init s)")
       (simp add: main_def ChaosFramework_init_def new_events_def)
qed

theorem connect_failure_witness:
  "driver env_closed (calls env_closed) = Some ''connection already closed'' \<and>
   fst (run_chaos_suite env_closed) = None \<and>
   experiments (snd (main env_closed)) = [] \<and>
   new_events env_closed (snd (main env_closed)) =
     [Print_banner, Driver_call ''connect'',
      Log_error ''Connection failed: connection already closed'']"
  using connect_failure [of env_closed "''connection already closed''"]
  by (simp add: env_closed_def env_healthy_def)

theorem connect_failure_counterexample:
  "fst (main env_closed) = 0 \<and> fst (run_chaos_suite env_closed) = None"
  by code_simp

end
